theory Spec2Isabelle
  imports Complex_Main "HOL-Library.Sublist"
begin

section \<open>JavaScript values\<close>

text \<open>
  The pipeline of \<^verbatim>\<open>src/agent/graph.js\<close> passes untyped JavaScript values from one
  stage to the next. Values that come out of \<^verbatim>\<open>JSON.parse\<close> or out of a stage whose data
  is not inspected here are kept as \<open>json\<close>; \<open>JNull\<close> is JavaScript's \<^verbatim>\<open>null\<close>.
  A JavaScript string is a \<open>string\<close>, one \<open>char\<close> for each code unit, which limits
  the texts considered to code units below 256; the fixed glyphs of progress messages
  that lie outside ASCII are named constants holding their UTF-8 bytes.
\<close>

datatype json =
    JNull
  | JBool bool
  | JNum rat
  | JStr string
  | JArr "json list"
  | JObj "(string \<times> json) list"

text \<open>Truthiness, as \<^verbatim>\<open>||\<close>, \<^verbatim>\<open>!\<close> and \<^verbatim>\<open>if\<close> see it.\<close>

fun js_truthy :: "json \<Rightarrow> bool" where
  "js_truthy JNull = False"
| "js_truthy (JBool b) = b"
| "js_truthy (JNum n) = (n \<noteq> 0)"
| "js_truthy (JStr s) = (s \<noteq> [])"
| "js_truthy (JArr _) = True"
| "js_truthy (JObj _) = True"

text \<open>
  Reading a data property \<^verbatim>\<open>v.k\<close> of a value that is not \<^verbatim>\<open>null\<close>: \<open>None\<close> is
  \<^verbatim>\<open>undefined\<close>. The keys read in this development (\<^verbatim>\<open>score\<close>, \<^verbatim>\<open>recommendation\<close>,
  \<^verbatim>\<open>demandScore\<close>) exist on objects only.
\<close>

fun js_prop :: "json \<Rightarrow> string \<Rightarrow> json option" where
  "js_prop (JObj kvs) k = map_of kvs k"
| "js_prop _ k = None"

text \<open>
  An \<^verbatim>\<open>Error\<close> object, or any other value whose \<^verbatim>\<open>message\<close> is a string or is absent
  (\<^verbatim>\<open>undefined\<close> or \<^verbatim>\<open>null\<close>). The errors that the runtime raises and the reasons with
  which the web search client rejects are of this kind.
\<close>

datatype error = Error (message: "string option")

definition TypeError :: "string \<Rightarrow> error" where
  "TypeError m = Error (Some m)"

text \<open>
  What a \<^verbatim>\<open>throw\<close> or a rejected promise may carry, as far as the handlers of the source
  can tell values apart: \<^verbatim>\<open>null\<close> or \<^verbatim>\<open>undefined\<close>, whose \<^verbatim>\<open>message\<close> cannot be read; a
  value with a string or absent message; or a value whose message is something else.
  For the last kind, \<open>None\<close> says that the message has no callable \<^verbatim>\<open>slice\<close> (a number, a
  boolean, a plain object), and \<open>Some s\<close> that it has one (an array) and that
  \<^verbatim>\<open>err.message.slice(0, 80) || "unknown error"\<close>, put into a template, reads \<open>s\<close>.
\<close>

datatype thrown =
    Nullish
  | Thrown error
  | Odd_message "string option"

text \<open>The thrown values from which the wrapper of the graph can build its warning.\<close>

fun reportable :: "thrown \<Rightarrow> bool" where
  "reportable Nullish = False"
| "reportable (Thrown e) = True"
| "reportable (Odd_message r) = (r \<noteq> None)"

text \<open>
  \<^verbatim>\<open>String(v)\<close> and \<^verbatim>\<open>`${v}`\<close> throw a \<^verbatim>\<open>TypeError\<close> when \<open>v\<close> cannot be converted to a
  primitive. For data that came out of \<^verbatim>\<open>JSON.parse\<close> that is an object with a property
  of its own named \<^verbatim>\<open>toString\<close> (never callable, and \<^verbatim>\<open>valueOf\<close> does not give a
  primitive either), or an array that holds such a value, since an array is converted by
  joining the conversions of its elements.
\<close>

fun to_string_throws :: "json \<Rightarrow> bool" where
  "to_string_throws (JObj kvs) = (map_of kvs ''toString'' \<noteq> None)"
| "to_string_throws (JArr xs) = list_ex to_string_throws xs"
| "to_string_throws v = False"

section \<open>Deduplication of web sources by URL\<close>

text \<open>An item of a web search's \<^verbatim>\<open>results\<close>; a field that is absent is \<open>None\<close>.\<close>

record source =
  url :: "string option"
  title :: "string option"
  content :: "string option"

text \<open>
  \<^verbatim>\<open>const seen = new Set();
  const uniqueSources = allSources.filter((s) => {
    if (!s.url || seen.has(s.url)) return false;
    seen.add(s.url);
    return true;
  });\<close>
  The set \<open>seen\<close> is threaded through the traversal.
\<close>

fun dedupe_by_url :: "string set \<Rightarrow> source list \<Rightarrow> source list" where
  "dedupe_by_url seen [] = []"
| "dedupe_by_url seen (s # ss) =
     (case url s of
        None \<Rightarrow> dedupe_by_url seen ss
      | Some u \<Rightarrow>
          if u = [] \<or> u \<in> seen then dedupe_by_url seen ss
          else s # dedupe_by_url (insert u seen) ss)"

definition uniqueSources :: "source list \<Rightarrow> source list" where
  "uniqueSources allSources = dedupe_by_url {} allSources"

text \<open>An item has a URL key when \<^verbatim>\<open>s.url\<close> is truthy: present and not the empty string.\<close>

definition has_url :: "source \<Rightarrow> bool" where
  "has_url s = (case url s of None \<Rightarrow> False | Some u \<Rightarrow> u \<noteq> [])"

definition url_keys :: "source list \<Rightarrow> string set" where
  "url_keys xs = set (concat (map (\<lambda>s. case url s of None \<Rightarrow> [] | Some u \<Rightarrow> if u = [] then [] else [u]) xs))"

text \<open>The positions of a list that hold the first item with their URL key.\<close>

definition first_occurrence :: "source list \<Rightarrow> nat \<Rightarrow> bool" where
  "first_occurrence xs i = (has_url (xs ! i) \<and> list_all (\<lambda>j. url (xs ! j) \<noteq> url (xs ! i)) [0..<i])"

section \<open>Promises, the per-task timer and the fan-out\<close>

text \<open>
  What an external call does: it resolves or rejects after some milliseconds, or never
  settles. \<^verbatim>\<open>Promise.allSettled\<close> reports one envelope for each promise.
\<close>

datatype 'a promise = Resolves nat 'a | Rejects nat error | Pending

datatype 'a settled = Fulfilled 'a | Rejected error

definition timeout_error :: error where
  "timeout_error = Error (Some ''timeout'')"

text \<open>
  \<^verbatim>\<open>Promise.race([task, new Promise((_, rej) => setTimeout(() => rej(new Error("timeout")), ms))])\<close>:
  the instant at which the race settles and its outcome. A task that has not settled
  before the timer fires loses the race (the timer wins a tie).
\<close>

fun race_timeout :: "nat \<Rightarrow> 'a promise \<Rightarrow> nat \<times> 'a settled" where
  "race_timeout ms (Resolves t v) = (if t < ms then (t, Fulfilled v) else (ms, Rejected timeout_error))"
| "race_timeout ms (Rejects t e) = (if t < ms then (t, Rejected e) else (ms, Rejected timeout_error))"
| "race_timeout ms Pending = (ms, Rejected timeout_error)"

text \<open>
  \<^verbatim>\<open>Promise.allSettled\<close> over promises that settle: it resolves when the last of them has
  settled, with the envelopes in the order of its argument.
\<close>

definition allSettled :: "(nat \<times> 'a settled) list \<Rightarrow> nat \<times> 'a settled list" where
  "allSettled ps = (fold max (map fst ps) 0, map snd ps)"

text \<open>
  The fan-out of \<^verbatim>\<open>runSingleTavilyResearch\<close>:
  \<^verbatim>\<open>await Promise.allSettled(tasks.map((q) => Promise.race([task q, timer])))\<close>.
\<close>

definition gatherAll :: "nat \<Rightarrow> 'a promise list \<Rightarrow> nat \<times> 'a settled list" where
  "gatherAll perTaskTimeout tasks = allSettled (map (race_timeout perTaskTimeout) tasks)"




section \<open>The rate limiter of \<^verbatim>\<open>src/services/twitter.js\<close>\<close>

text \<open>
  \<^verbatim>\<open>let _nextSlot = 0;
  async function throttle() {
    const now  = Date.now();
    const wait = Math.max(0, _nextSlot - now);
    _nextSlot  = Math.max(now, _nextSlot) + 5600;
    if (wait) await delay(wait);
  }\<close>
  The three statements before the \<^verbatim>\<open>await\<close> run without interruption. \<open>throttle\<close> takes
  the clock reading and \<^verbatim>\<open>_nextSlot\<close> and returns the new \<^verbatim>\<open>_nextSlot\<close> and the delay.
\<close>

definition throttle :: "int \<Rightarrow> int \<Rightarrow> int \<times> int" where
  "throttle now nextSlot =
     (let wait = max 0 (nextSlot - now)
      in (max now nextSlot + 5600, wait))"

text \<open>
  The instant before which a caller cannot be released is \<open>now + wait\<close>, the slot that
  the call reserves. The list of clock readings is the order in which the calls, from
  whatever callers, run their first three statements.
\<close>

fun slots :: "int \<Rightarrow> int list \<Rightarrow> int list" where
  "slots nextSlot [] = []"
| "slots nextSlot (now # nows) =
     (case throttle now nextSlot of
        (nextSlot', wait) \<Rightarrow> (now + wait) # slots nextSlot' nows)"

text \<open>
  A caller is released, that is, the code after \<^verbatim>\<open>await throttle()\<close> runs, some time
  after its slot: a caller with no delay resumes only when the synchronous code that is
  running has finished, and a timer fires no earlier than asked but as late as the event
  loop allows. A call is given by its clock reading and by the lateness of its
  resumption, in milliseconds.
\<close>

fun releases :: "int \<Rightarrow> (int \<times> nat) list \<Rightarrow> int list" where
  "releases nextSlot [] = []"
| "releases nextSlot ((now, late) # calls) =
     (case throttle now nextSlot of
        (nextSlot', wait) \<Rightarrow> (now + wait + int late) # releases nextSlot' calls)"

section \<open>The web research task\<close>

text \<open>
  What a web search resolves with: \<^verbatim>\<open>{answer?, results: [{url, title, content}]}\<close>; the
  value itself may be falsy (\<open>None\<close>).
\<close>

record tavily_response =
  answer :: "string option"
  results :: "source list option"

record tavily_data =
  searchResults :: "json list"
  sources :: "source list"
  summary :: string
  sourceCount :: nat

definition searchQueries :: "string \<Rightarrow> string list" where
  "searchQueries idea =
     [idea @ '' market size TAM startup landscape 2025'',
      idea @ '' competitors alternatives funding investors'',
      idea @ '' customer pain points use cases target market'',
      idea @ '' growth trends industry report'']"

definition newline :: string where
  "newline = [CHR 0x0A]"

text \<open>\<^verbatim>\<open>xs.join(sep)\<close>\<close>

fun js_join :: "string \<Rightarrow> string list \<Rightarrow> string" where
  "js_join sep [] = []"
| "js_join sep [x] = x"
| "js_join sep (x # y # ys) = x @ sep @ js_join sep (y # ys)"

text \<open>
  The loop over \<^verbatim>\<open>settled\<close> (lines 108 to 118), each envelope with its query: a fulfilled
  truthy value adds its results (\<^verbatim>\<open>r.value.results || []\<close>) to \<^verbatim>\<open>allSources\<close> and its
  answer, when truthy, to \<^verbatim>\<open>answers\<close>; any other envelope adds nothing.
\<close>

fun collect_settled ::
  "(string \<times> tavily_response option settled) list \<Rightarrow> source list \<times> string list" where
  "collect_settled [] = ([], [])"
| "collect_settled ((q, r) # rest) =
     (case collect_settled rest of
        (allSources, answers) \<Rightarrow>
          (case r of
             Fulfilled (Some v) \<Rightarrow>
               ((case results v of None \<Rightarrow> [] | Some rs \<Rightarrow> rs) @ allSources,
                (case answer v of
                   None \<Rightarrow> answers
                 | Some a \<Rightarrow>
                     if a = [] then answers
                     else (''**'' @ q @ ''**'' @ newline @ a) # answers))
           | Fulfilled None \<Rightarrow> (allSources, answers)
           | Rejected e \<Rightarrow> (allSources, answers)))"

text \<open>
  \<^verbatim>\<open>runSingleTavilyResearch(idea)\<close>, with the search client \<^verbatim>\<open>tvly.search\<close> as a parameter.
  The function has no statement that throws on responses and rejection reasons of this
  shape; as the result of an asynchronous function it is a rejection or a value.
\<close>

definition runSingleTavilyResearch ::
  "(string \<Rightarrow> tavily_response option promise) \<Rightarrow> string \<Rightarrow> thrown + tavily_data" where
  "runSingleTavilyResearch tvly_search idea =
     (let settled = snd (gatherAll 25000 (map tvly_search (searchQueries idea)));
          (allSources, answers) = collect_settled (zip (searchQueries idea) settled);
          unique = uniqueSources allSources;
          webSummary = js_join (newline @ newline) answers
      in Inr \<lparr> searchResults = [], sources = take 15 unique,
               summary = webSummary, sourceCount = length unique \<rparr>)"

text \<open>The results of the searches that were fulfilled with a value, in the order of the queries.\<close>

definition successful_results ::
  "(string \<Rightarrow> tavily_response option promise) \<Rightarrow> string \<Rightarrow> source list" where
  "successful_results tvly_search idea =
     concat (map (\<lambda>q. case snd (race_timeout 25000 (tvly_search q)) of
                        Fulfilled (Some v) \<Rightarrow> (case results v of None \<Rightarrow> [] | Some rs \<Rightarrow> rs)
                      | Fulfilled None \<Rightarrow> []
                      | Rejected e \<Rightarrow> [])
                 (searchQueries idea))"

section \<open>Run state, patches and progress events\<close>

text \<open>
  The channels of \<^verbatim>\<open>State\<close> (lines 28 to 39). Each reducer is \<^verbatim>\<open>(_, y) => y\<close>; the
  defaults are the empty string for the two texts and \<^verbatim>\<open>null\<close> for the rest.
\<close>

record state =
  idea :: string
  description :: string
  queries :: json
  trendsData :: json
  demandData :: json
  adopterData :: json
  funderData :: json
  communityData :: json
  tavilyData :: "tavily_data option"
  verdict :: json

definition State_default :: state where
  "State_default =
     \<lparr> idea = [], description = [], queries = JNull, trendsData = JNull,
       demandData = JNull, adopterData = JNull, funderData = JNull,
       communityData = JNull, tavilyData = None, verdict = JNull \<rparr>"

text \<open>What a node returns: an object with one channel, as every stage of the source does.\<close>

datatype patch =
    Set_idea string
  | Set_description string
  | Set_queries json
  | Set_trendsData json
  | Set_demandData json
  | Set_adopterData json
  | Set_funderData json
  | Set_communityData json
  | Set_tavilyData tavily_data
  | Set_verdict json

fun apply_patch :: "state \<Rightarrow> patch \<Rightarrow> state" where
  "apply_patch s (Set_idea y) = s\<lparr>idea := y\<rparr>"
| "apply_patch s (Set_description y) = s\<lparr>description := y\<rparr>"
| "apply_patch s (Set_queries y) = s\<lparr>queries := y\<rparr>"
| "apply_patch s (Set_trendsData y) = s\<lparr>trendsData := y\<rparr>"
| "apply_patch s (Set_demandData y) = s\<lparr>demandData := y\<rparr>"
| "apply_patch s (Set_adopterData y) = s\<lparr>adopterData := y\<rparr>"
| "apply_patch s (Set_funderData y) = s\<lparr>funderData := y\<rparr>"
| "apply_patch s (Set_communityData y) = s\<lparr>communityData := y\<rparr>"
| "apply_patch s (Set_tavilyData y) = s\<lparr>tavilyData := Some y\<rparr>"
| "apply_patch s (Set_verdict y) = s\<lparr>verdict := y\<rparr>"

text \<open>
  A progress event \<^verbatim>\<open>{type, ts, msg}\<close>. The field \<^verbatim>\<open>ts\<close>, the wall-clock time of the
  emission, is left out.
\<close>

record event =
  etype :: string
  msg :: string

definition warn_sign :: string where
  "warn_sign = [CHR 0xE2, CHR 0x9A, CHR 0xA0]"

definition em_dash :: string where
  "em_dash = [CHR 0xE2, CHR 0x80, CHR 0x94]"

definition cross_mark :: string where
  "cross_mark = [CHR 0xE2, CHR 0x9C, CHR 0x97]"

definition dquote :: string where
  "dquote = [CHR 0x22]"

text \<open>
  The variable \<^verbatim>\<open>tavilyPrefetchPromise\<close> that the stages of one graph share. A promise
  is held as the outcome it settles with. \<open>tavily_runs\<close> counts how many times
  \<^verbatim>\<open>runSingleTavilyResearch\<close> has been started; the search client's answers may depend on
  that number, so that a second execution could be told from the first.
\<close>

record closure =
  tavilyPrefetchPromise :: "(thrown + tavily_data) option"
  tavily_runs :: nat

definition fresh_closure :: closure where
  "fresh_closure = \<lparr> tavilyPrefetchPromise = None, tavily_runs = 0 \<rparr>"

text \<open>
  A stage body returns a patch or throws. The progress events that stage bodies emit
  do not influence control flow and are left out, except where building the message can
  throw. A wrapped node also yields the events that the wrapper emits.
\<close>

type_synonym stage = "closure \<Rightarrow> state \<Rightarrow> closure \<times> (thrown + patch)"

type_synonym node = "closure \<Rightarrow> state \<Rightarrow> closure \<times> event list \<times> (thrown + patch)"

section \<open>The fault-isolating wrapper\<close>

text \<open>
  \<^verbatim>\<open>err.message?.slice(0, 80) || "unknown error"\<close> for a value whose message is a string
  or absent.
\<close>

definition error_description :: "error \<Rightarrow> string" where
  "error_description err =
     (case message err of
        None \<Rightarrow> ''unknown error''
      | Some m \<Rightarrow> if take 80 m = [] then ''unknown error'' else take 80 m)"

text \<open>
  The same expression for any thrown value. Reading \<^verbatim>\<open>err.message\<close> throws when \<open>err\<close>
  is \<^verbatim>\<open>null\<close> or \<^verbatim>\<open>undefined\<close> (the optional chain guards the message, not \<open>err\<close>), and the
  call throws when the message is present and has no callable \<^verbatim>\<open>slice\<close>.
\<close>

fun warn_description :: "thrown \<Rightarrow> error + string" where
  "warn_description Nullish = Inl (TypeError ''Cannot read properties of null or undefined'')"
| "warn_description (Thrown e) = Inr (error_description e)"
| "warn_description (Odd_message None) = Inl (TypeError ''err.message?.slice is not a function'')"
| "warn_description (Odd_message (Some s)) = Inr s"

definition warn_event :: "string \<Rightarrow> string \<Rightarrow> event" where
  "warn_event name descr =
     \<lparr> etype = ''warn'',
       msg = ''  '' @ warn_sign @ '' '' @ name @ '' failed: '' @ descr
             @ '' '' @ em_dash @ '' continuing with partial data'' \<rparr>"

text \<open>
  \<^verbatim>\<open>function wrapNode(name, fn, fallbackFactory) {
    return async (state) => {
      try { return await fn(state); }
      catch (err) {
        emit({ type: "warn", ts: ts(), msg: `  ... ${name} failed: ${err.message?.slice(0, 80)
          || "unknown error"} ... continuing with partial data` });
        return fallbackFactory(state);
      }
    };
  }\<close>
  The argument of \<^verbatim>\<open>emit\<close> is evaluated first: when that throws, nothing is emitted and
  the returned promise rejects with the \<^verbatim>\<open>TypeError\<close>.
\<close>

definition wrapNode :: "string \<Rightarrow> stage \<Rightarrow> (state \<Rightarrow> patch) \<Rightarrow> node" where
  "wrapNode name fn fallbackFactory c st =
     (case fn c st of
        (c', Inr p) \<Rightarrow> (c', [], Inr p)
      | (c', Inl err) \<Rightarrow>
          (case warn_description err of
             Inl e \<Rightarrow> (c', [], Inl (Thrown e))
           | Inr descr \<Rightarrow> (c', [warn_event name descr], Inr (fallbackFactory st))))"

section \<open>The external collaborators\<close>

text \<open>The call sites of \<^verbatim>\<open>llm.invoke\<close>, one for each stage that asks the chat model.\<close>

datatype llm_call =
  Plan_call | Trends_call | Demand_call | Adopters_call | Funders_call | Synthesis_call

text \<open>
  Everything a run takes from outside, as outcomes: the chat model's reply at each call
  site (a rejection with any value, or the reply's \<^verbatim>\<open>content\<close>), the synthesis model's
  text for a prompt, \<^verbatim>\<open>JSON.parse\<close> (\<open>None\<close> where it throws a \<^verbatim>\<open>SyntaxError\<close>), the web
  search client (its first argument is the number of the execution of the research
  task), and the community search. For each stage that asks the chat model, \<open>gather\<close>
  is what its statements before the call compute (the social-network fan-out, whose
  rejections \<^verbatim>\<open>Promise.allSettled\<close> absorbs, and the local filters) and \<open>assemble\<close> what
  its statements after the call compute; either is local code, which may throw a runtime
  error on malformed data. \<open>synthesis_prompt\<close> is the construction of \<^verbatim>\<open>bigPrompt\<close>
  (lines 420 to 499), local code as well.
\<close>

record env =
  llm_invoke :: "llm_call \<Rightarrow> state \<Rightarrow> thrown + string"
  gemini_generateContent :: "string \<Rightarrow> thrown + string"
  JSON_parse :: "string \<Rightarrow> json option"
  tvly_search :: "nat \<Rightarrow> string \<Rightarrow> tavily_response option promise"
  gather :: "llm_call \<Rightarrow> state \<Rightarrow> error + json"
  assemble :: "llm_call \<Rightarrow> state \<Rightarrow> json \<Rightarrow> string \<Rightarrow> error + json"
  searchCommunityTweets :: "state \<Rightarrow> thrown + json list"
  synthesis_prompt :: "state \<Rightarrow> error + string"

section \<open>Extracting JSON from a model's reply\<close>

text \<open>
  \<^verbatim>\<open>text.match(/\{[\s\S]*\}/)\<close>: the match starts at the first opening brace and, the
  star being greedy, ends at the last closing brace after it; there is no match when no
  closing brace follows the first opening brace.
\<close>

definition match_braces :: "string \<Rightarrow> string option" where
  "match_braces text =
     (let from_open = dropWhile (\<lambda>c. c \<noteq> CHR ''{'') text
      in if from_open = [] then None
         else let body = rev (dropWhile (\<lambda>c. c \<noteq> CHR ''}'') (rev (tl from_open)))
              in if body = [] then None else Some (CHR ''{'' # body))"

definition SyntaxError :: error where
  "SyntaxError = Error (Some ''Unexpected token in JSON'')"

text \<open>\<^verbatim>\<open>const m = text.match(/\{[\s\S]*\}/); JSON.parse(m ? m[0] : text)\<close>\<close>

definition parse_reply :: "env \<Rightarrow> string \<Rightarrow> error + json" where
  "parse_reply env text =
     (case JSON_parse env (case match_braces text of Some m \<Rightarrow> m | None \<Rightarrow> text) of
        None \<Rightarrow> Inl SyntaxError
      | Some v \<Rightarrow> Inr v)"



section \<open>The stages\<close>

definition fallbackQueries :: "string \<Rightarrow> json" where
  "fallbackQueries the_idea = JObj
     [(''trend_scan'', JStr (the_idea @ '' -is:retweet lang:en'')),
      (''demand_recent'', JStr (the_idea @ '' lang:en'')),
      (''demand_top'', JStr (the_idea @ '' lang:en'')),
      (''adopter_pain'', JStr (the_idea @ '' (wish OR struggling OR frustrated OR '' @ dquote
          @ ''looking for'' @ dquote @ '' OR '' @ dquote @ ''need a'' @ dquote
          @ '') lang:en -is:retweet'')),
      (''investor_search'', JStr (the_idea @ '' investor'')),
      (''competitor_search'', JStr (the_idea @ '' alternative OR competitor lang:en'')),
      (''community_query'', JStr the_idea)]"

text \<open>
  The values that \<^verbatim>\<open>Object.entries(queries)\<close> lists: the property values of an object,
  the elements of an array, the characters of a string, nothing for a number or a
  boolean.
\<close>

fun entry_values :: "json \<Rightarrow> json list" where
  "entry_values (JObj kvs) = map snd kvs"
| "entry_values (JArr xs) = xs"
| "entry_values (JStr s) = map (\<lambda>ch. JStr [ch]) s"
| "entry_values v = []"

text \<open>
  Node 1. \<^verbatim>\<open>getCredits()\<close> catches its own failures and only feeds a progress event. The
  reply is parsed, the fallback plan replacing it where parsing throws. Then, outside
  the \<^verbatim>\<open>try\<close>, \<^verbatim>\<open>Object.entries(queries)\<close> throws on \<^verbatim>\<open>null\<close>, and the progress line of
  each entry calls \<^verbatim>\<open>String(v)\<close>, which throws on a value that cannot be converted. Last,
  the web research is started unless a promise is already held.
\<close>

definition start_prefetch :: "env \<Rightarrow> closure \<Rightarrow> state \<Rightarrow> closure" where
  "start_prefetch env c st =
     (case tavilyPrefetchPromise c of
        None \<Rightarrow>
          c\<lparr> tavilyPrefetchPromise :=
                Some (runSingleTavilyResearch (tvly_search env (tavily_runs c)) (idea st)),
             tavily_runs := Suc (tavily_runs c) \<rparr>
      | Some p \<Rightarrow> c)"

definition planQueries :: "env \<Rightarrow> stage" where
  "planQueries env c st =
     (case llm_invoke env Plan_call st of
        Inl err \<Rightarrow> (c, Inl err)
      | Inr resp_content \<Rightarrow>
          (let queries = (case parse_reply env resp_content of
                            Inr q \<Rightarrow> q
                          | Inl e \<Rightarrow> fallbackQueries (idea st))
           in if queries = JNull
              then (c, Inl (Thrown (TypeError ''Cannot convert undefined or null to object'')))
              else if list_ex to_string_throws (entry_values queries)
              then (c, Inl (Thrown (TypeError ''Cannot convert object to primitive value'')))
              else (start_prefetch env c st, Inr (Set_queries queries))))"

text \<open>
  Nodes 2 to 5 (trends, demand, adopters, funders) have one shape: gather, ask the chat
  model, assemble the stage's data. A throw of any of the three leaves the stage.
\<close>

definition llm_stage :: "env \<Rightarrow> llm_call \<Rightarrow> (json \<Rightarrow> patch) \<Rightarrow> stage" where
  "llm_stage env site channel c st =
     (c, case gather env site st of
           Inl err \<Rightarrow> Inl (Thrown err)
         | Inr gathered \<Rightarrow>
             (case llm_invoke env site st of
                Inl err \<Rightarrow> Inl err
              | Inr analysis \<Rightarrow>
                  (case assemble env site st gathered analysis of
                     Inl err \<Rightarrow> Inl (Thrown err)
                   | Inr data \<Rightarrow> Inr (channel data))))"

definition fetchTrends :: "env \<Rightarrow> stage" where
  "fetchTrends env = llm_stage env Trends_call Set_trendsData"

definition demandCheck :: "env \<Rightarrow> stage" where
  "demandCheck env = llm_stage env Demand_call Set_demandData"

definition adopterSearch :: "env \<Rightarrow> stage" where
  "adopterSearch env = llm_stage env Adopters_call Set_adopterData"

definition funderSearch :: "env \<Rightarrow> stage" where
  "funderSearch env = llm_stage env Funders_call Set_funderData"

text \<open>
  Node 6. \<^verbatim>\<open>await searchCommunityTweets(...).catch(() => [])\<close>, then
  \<^verbatim>\<open>{ tweets: commTweets.slice(0, 8), count: commTweets.length }\<close>.
\<close>

definition communityResearch :: "env \<Rightarrow> stage" where
  "communityResearch env c st =
     (let commTweets = (case searchCommunityTweets env st of Inl err \<Rightarrow> [] | Inr ts \<Rightarrow> ts)
      in (c, Inr (Set_communityData
            (JObj [(''tweets'', JArr (take 8 commTweets)),
                   (''count'', JNum (of_nat (length commTweets)))]))))"

text \<open>
  Node 7. \<^verbatim>\<open>tavilyPrefetchPromise ? await tavilyPrefetchPromise
  : await runSingleTavilyResearch(state.idea)\<close>. A rejected promise throws at the
  \<^verbatim>\<open>await\<close>.
\<close>

definition tavilyResearch :: "env \<Rightarrow> stage" where
  "tavilyResearch env c st =
     (case tavilyPrefetchPromise c of
        Some p \<Rightarrow> (c, case p of Inl err \<Rightarrow> Inl err | Inr d \<Rightarrow> Inr (Set_tavilyData d))
      | None \<Rightarrow>
          (c\<lparr> tavily_runs := Suc (tavily_runs c) \<rparr>,
           case runSingleTavilyResearch (tvly_search env (tavily_runs c)) (idea st) of
             Inl err \<Rightarrow> Inl err
           | Inr d \<Rightarrow> Inr (Set_tavilyData d)))"

text \<open>\<^verbatim>\<open>score: state.demandData?.demandScore || 50\<close>\<close>

definition fallback_score :: "state \<Rightarrow> json" where
  "fallback_score st =
     (if demandData st = JNull then JNum 50
      else case js_prop (demandData st) ''demandScore'' of
             None \<Rightarrow> JNum 50
           | Some v \<Rightarrow> if js_truthy v then v else JNum 50)"

definition fallbackVerdict :: "state \<Rightarrow> json" where
  "fallbackVerdict st = JObj
     [(''score'', fallback_score st),
      (''headline'', JStr (''Research complete '' @ em_dash @ '' manual review recommended'')),
      (''why_it_works'', JStr ''Twitter data shows market awareness.''),
      (''why_it_fails'', JStr ''Insufficient data for full analysis.''),
      (''strengths'', JArr [JStr ''Market conversations exist'']),
      (''weaknesses'', JArr [JStr ''Limited data'']),
      (''issues'', JArr [JStr ''Need more data'']),
      (''best_points'', JArr [JStr ''Conversations happening'']),
      (''idea_changes'', JArr [JStr ''Gather more customer feedback'']),
      (''new_additions'', JArr [JStr ''Build MVP first'']),
      (''target_customer'', JStr ''Early adopters''),
      (''go_to_market'', JStr ''Direct outreach''),
      (''competition_risk'', JStr ''medium''),
      (''timing'', JStr ''perfect''),
      (''market_size'', JStr ''Unknown''),
      (''key_insight'', JStr ''More research needed''),
      (''red_flags'', JArr [JStr ''Limited data'']),
      (''recommendation'', JStr ''explore''),
      (''investor_readiness'', JStr ''not_ready''),
      (''next_actions'', JArr [JStr ''Gather more data'', JStr ''Interview potential customers'']),
      (''top_funders'', JArr []),
      (''web_insights'', JStr ''Web research unavailable'')]"

text \<open>
  The event of line 523 reads \<^verbatim>\<open>verdict.score\<close>, which throws when the verdict is
  \<^verbatim>\<open>null\<close>, puts the score into a template, which throws when the score cannot be
  converted to a primitive, and calls \<^verbatim>\<open>verdict.recommendation?.toUpperCase()\<close>, which
  throws when the recommendation is neither absent, \<^verbatim>\<open>null\<close> nor a string.
\<close>

definition announce_verdict :: "json \<Rightarrow> thrown + patch" where
  "announce_verdict v =
     (if v = JNull then Inl (Thrown (TypeError ''Cannot read properties of null''))
      else if (case js_prop v ''score'' of None \<Rightarrow> False | Some sc \<Rightarrow> to_string_throws sc)
      then Inl (Thrown (TypeError ''Cannot convert object to primitive value''))
      else case js_prop v ''recommendation'' of
             None \<Rightarrow> Inr (Set_verdict v)
           | Some JNull \<Rightarrow> Inr (Set_verdict v)
           | Some (JStr r) \<Rightarrow> Inr (Set_verdict v)
           | Some other \<Rightarrow> Inl (Thrown (TypeError ''toUpperCase is not a function'')))"

text \<open>
  \<^verbatim>\<open>geminiErr.message.slice(0, 60)\<close> in the handler of the first attempt: it throws when
  the caught value is \<^verbatim>\<open>null\<close> or \<^verbatim>\<open>undefined\<close>, when its message is absent, and when its
  message has no callable \<^verbatim>\<open>slice\<close>.
\<close>

fun gemini_warning_throws :: "thrown \<Rightarrow> bool" where
  "gemini_warning_throws Nullish = True"
| "gemini_warning_throws (Thrown e) = (message e = None)"
| "gemini_warning_throws (Odd_message r) = (r = None)"

text \<open>
  Node 8. Building the prompt may throw. The synthesis model's text is parsed; when that
  fails, the handler builds its warning, which may throw, and asks the chat model; when
  that fails too, the verdict is \<^verbatim>\<open>fallbackVerdict(state)\<close>.
\<close>

definition geminiSynthesis :: "env \<Rightarrow> stage" where
  "geminiSynthesis env c st =
     (c, case synthesis_prompt env st of
           Inl err \<Rightarrow> Inl (Thrown err)
         | Inr bigPrompt \<Rightarrow>
             (case (case gemini_generateContent env bigPrompt of
                      Inl err \<Rightarrow> Inl err
                    | Inr text \<Rightarrow>
                        (case parse_reply env text of
                           Inl e \<Rightarrow> Inl (Thrown e) | Inr v \<Rightarrow> Inr v)) of
                Inr v \<Rightarrow> announce_verdict v
              | Inl geminiErr \<Rightarrow>
                  if gemini_warning_throws geminiErr
                  then Inl (Thrown (TypeError ''Cannot read properties of undefined''))
                  else
                    (case (case llm_invoke env Synthesis_call st of
                             Inl err \<Rightarrow> Inl err
                           | Inr resp_content \<Rightarrow>
                               (case parse_reply env resp_content of
                                  Inl e \<Rightarrow> Inl (Thrown e) | Inr v \<Rightarrow> Inr v)) of
                       Inr v \<Rightarrow> announce_verdict v
                     | Inl err \<Rightarrow> announce_verdict (fallbackVerdict st))))"

section \<open>The graph\<close>

text \<open>The fallback factories of lines 547 to 573.\<close>

definition trends_fallback :: json where
  "trends_fallback = JObj
     [(''worldwideCount'', JNum 0), (''usaCount'', JNum 0), (''matched'', JArr []),
      (''allTrends'', JArr []), (''hashtags'', JArr []), (''keywords'', JArr []),
      (''contextTweets'', JArr []), (''topTweets'', JArr []),
      (''insights'', JStr ''Trend data unavailable due to API/runtime failure.'')]"

definition demand_fallback :: json where
  "demand_fallback = JObj
     [(''recentCount'', JNum 0), (''monthCount'', JNum 0), (''topTweets'', JArr []),
      (''competitorTweets'', JArr []),
      (''sentiment'', JObj [(''positive'', JNum 0), (''negative'', JNum 0), (''neutral'', JNum 100)]),
      (''avgLikes'', JNum 0), (''avgRt'', JNum 0), (''demandScore'', JNum 0),
      (''insights'', JStr ''Demand data unavailable due to API/runtime failure.'')]"

definition adopter_fallback :: json where
  "adopter_fallback = JObj
     [(''count'', JNum 0), (''users'', JArr []), (''allPainTweets'', JNum 0),
      (''insights'', JStr ''Adopter data unavailable due to API/runtime failure.'')]"

definition funder_fallback :: json where
  "funder_fallback = JObj
     [(''count'', JNum 0), (''profileInvestors'', JArr []), (''tweetInvestors'', JArr []),
      (''insights'', JStr ''Funder data unavailable due to API/runtime failure.'')]"

definition community_fallback :: json where
  "community_fallback = JObj [(''tweets'', JArr []), (''count'', JNum 0)]"

definition tavily_fallback :: tavily_data where
  "tavily_fallback = \<lparr> searchResults = [], sources = [], summary = [], sourceCount = 0 \<rparr>"

text \<open>
  The chain of lines 546 to 582 over eight stage bodies: each body wrapped with its
  name and its fallback factory, in the order of the edges from \<^verbatim>\<open>START\<close> to \<^verbatim>\<open>END\<close>.
\<close>

definition graph_nodes ::
  "stage \<Rightarrow> stage \<Rightarrow> stage \<Rightarrow> stage \<Rightarrow> stage \<Rightarrow> stage \<Rightarrow> stage \<Rightarrow> stage \<Rightarrow> node list" where
  "graph_nodes plan trends demand adopters funders community web synthesis =
     [wrapNode ''Plan queries'' plan (\<lambda>st. Set_queries (fallbackQueries (idea st))),
      wrapNode ''Trends'' trends (\<lambda>st. Set_trendsData trends_fallback),
      wrapNode ''Demand'' demand (\<lambda>st. Set_demandData demand_fallback),
      wrapNode ''Adopters'' adopters (\<lambda>st. Set_adopterData adopter_fallback),
      wrapNode ''Funders'' funders (\<lambda>st. Set_funderData funder_fallback),
      wrapNode ''Community'' community (\<lambda>st. Set_communityData community_fallback),
      wrapNode ''Web intel'' web (\<lambda>st. Set_tavilyData tavily_fallback),
      wrapNode ''Synthesis'' synthesis (\<lambda>st. Set_verdict (fallbackVerdict st))]"

definition createResearchGraph :: "env \<Rightarrow> node list" where
  "createResearchGraph env =
     graph_nodes (planQueries env) (fetchTrends env) (demandCheck env) (adopterSearch env)
       (funderSearch env) (communityResearch env) (tavilyResearch env) (geminiSynthesis env)"

text \<open>
  Running a chain: each node reads the state merged so far, its patch is merged by the
  channel's reducer before the next node starts, and a node that throws ends the run
  with that error.
\<close>

fun run_nodes ::
  "node list \<Rightarrow> closure \<Rightarrow> event list \<Rightarrow> state \<Rightarrow> closure \<times> event list \<times> (thrown + state)" where
  "run_nodes [] c evs st = (c, evs, Inr st)"
| "run_nodes (n # ns) c evs st =
     (case n c st of
        (c', es, Inl err) \<Rightarrow> (c', evs @ es, Inl err)
      | (c', es, Inr p) \<Rightarrow> run_nodes ns c' (evs @ es) (apply_patch st p))"

text \<open>
  \<^verbatim>\<open>createResearchGraph(emit).invoke(input)\<close>: the channels not given by the input keep
  their defaults; nothing checks the input.
\<close>

record graph_input =
  input_idea :: "string option"
  input_description :: "string option"

definition initial_state :: "graph_input \<Rightarrow> state" where
  "initial_state inp =
     State_default
       \<lparr> idea := (case input_idea inp of None \<Rightarrow> idea State_default | Some i \<Rightarrow> i),
         description := (case input_description inp of
                           None \<Rightarrow> description State_default | Some d \<Rightarrow> d) \<rparr>"

definition graph_invoke :: "env \<Rightarrow> graph_input \<Rightarrow> closure \<times> event list \<times> (thrown + state)" where
  "graph_invoke env inp = run_nodes (createResearchGraph env) fresh_closure [] (initial_state inp)"

section \<open>The research endpoint of \<^verbatim>\<open>src/index.js\<close>\<close>

text \<open>
  White space that \<^verbatim>\<open>String.prototype.trim\<close> removes, among the code units below 256.
\<close>

definition js_space :: "char \<Rightarrow> bool" where
  "js_space ch = (ch \<in> set [CHR 0x09, CHR 0x0A, CHR 0x0B, CHR 0x0C, CHR 0x0D, CHR 0x20, CHR 0xA0])"

definition js_trim :: "string \<Rightarrow> string" where
  "js_trim t = rev (dropWhile js_space (rev (dropWhile js_space t)))"

record request =
  query_idea :: "string option"
  query_description :: "string option"

text \<open>
  How the stream ends: with the \<^verbatim>\<open>complete\<close> event carrying the result; with the
  \<^verbatim>\<open>error\<close> event whose message is built from \<^verbatim>\<open>err.message\<close>; or, when reading
  \<^verbatim>\<open>err.message\<close> throws inside the \<^verbatim>\<open>catch\<close>, with no terminal event at all.
\<close>

datatype terminal = Complete state | Agent_error thrown | Handler_raises

datatype response = Http_400 string | Sse "event list" terminal

text \<open>
  \<^verbatim>\<open>if (!idea || String(idea).trim().length < 3)
    return res.status(400).json({ error: "Provide a startup idea (min 3 chars)." });\<close>
\<close>

definition idea_rejected :: "request \<Rightarrow> bool" where
  "idea_rejected req =
     (case query_idea req of
        None \<Rightarrow> True
      | Some i \<Rightarrow> i = [] \<or> length (js_trim i) < 3)"

text \<open>
  The handler of \<^verbatim>\<open>GET /api/research\<close>: the check, then the graph, invoked with the
  trimmed texts, inside \<^verbatim>\<open>try\<close>/\<^verbatim>\<open>catch\<close>. \<^verbatim>\<open>saveResearchForUser\<close> catches its own
  failures. The stream is given by the events of the wrappers and by how it ends.
\<close>

definition request_input :: "request \<Rightarrow> graph_input" where
  "request_input req =
     \<lparr> input_idea = Some (js_trim (case query_idea req of None \<Rightarrow> [] | Some i \<Rightarrow> i)),
       input_description =
         Some (js_trim (case query_description req of None \<Rightarrow> [] | Some d \<Rightarrow> d)) \<rparr>"

definition api_research :: "env \<Rightarrow> request \<Rightarrow> response" where
  "api_research env req =
     (if idea_rejected req then Http_400 ''Provide a startup idea (min 3 chars).''
      else
        (case graph_invoke env (request_input req) of
           (c, evs, Inr result) \<Rightarrow> Sse evs (Complete result)
         | (c, evs, Inl err) \<Rightarrow>
             Sse evs (case err of Nullish \<Rightarrow> Handler_raises | other \<Rightarrow> Agent_error err)))"

section \<open>Concrete collaborators\<close>

text \<open>A parser that knows two texts, enough to run the definitions on examples.\<close>

definition tiny_parse :: "string \<Rightarrow> json option" where
  "tiny_parse t =
     (if t = ''{}'' then Some (JObj [])
      else if t = ''null'' then Some JNull
      else None)"

definition network_error :: error where
  "network_error = Error (Some ''connect ECONNREFUSED'')"

text \<open>An environment in which every external call raises.\<close>

definition failing_env :: env where
  "failing_env =
     \<lparr> llm_invoke = (\<lambda>site st. Inl (Thrown network_error)),
       gemini_generateContent = (\<lambda>prompt. Inl (Thrown network_error)),
       JSON_parse = tiny_parse,
       tvly_search = (\<lambda>run q. Rejects 40 network_error),
       gather = (\<lambda>site st. Inr JNull),
       assemble = (\<lambda>site st gathered analysis. Inr JNull),
       searchCommunityTweets = (\<lambda>st. Inl (Thrown network_error)),
       synthesis_prompt = (\<lambda>st. Inr ''prompt'') \<rparr>"

text \<open>
  An environment in which every call succeeds: both models answer with an empty object,
  and every web search returns the same sixteen pages.
\<close>

definition sixteen_pages :: "source list" where
  "sixteen_pages =
     map (\<lambda>n. \<lparr> url = Some (replicate (Suc n) CHR ''u''), title = None, content = None \<rparr>) [0..<16]"

definition page_search :: "string \<Rightarrow> tavily_response option promise" where
  "page_search q = Resolves 900 (Some \<lparr> answer = Some ''yes'', results = Some sixteen_pages \<rparr>)"

definition working_env :: env where
  "working_env =
     \<lparr> llm_invoke = (\<lambda>site st. Inr ''Here you are: {}''),
       gemini_generateContent = (\<lambda>prompt. Inr ''{}''),
       JSON_parse = tiny_parse,
       tvly_search = (\<lambda>run. page_search),
       gather = (\<lambda>site st. Inr (JArr [])),
       assemble = (\<lambda>site st gathered analysis. Inr (JObj [(''insights'', JStr analysis)])),
       searchCommunityTweets = (\<lambda>st. Inr []),
       synthesis_prompt = (\<lambda>st. Inr ''prompt'') \<rparr>"

section \<open>Notions used in the statements\<close>

text \<open>A verdict is parsed from a model's reply or is the fallback verdict.\<close>

definition verdict_origin :: "env \<Rightarrow> state \<Rightarrow> json \<Rightarrow> bool" where
  "verdict_origin env st v = (v = fallbackVerdict st \<or> (\<exists>t. JSON_parse env t = Some v))"


text \<open>The first node of the graph, as line 547 wraps it.\<close>

definition plan_node :: "env \<Rightarrow> node" where
  "plan_node env = wrapNode ''Plan queries'' (planQueries env) (\<lambda>st. Set_queries (fallbackQueries (idea st)))"

text \<open>A stage body that throws only values from which the wrapper can build its warning.\<close>

definition throws_reportable :: "stage \<Rightarrow> bool" where
  "throws_reportable fn = (\<forall>c st. case snd (fn c st) of Inl t \<Rightarrow> reportable t | Inr p \<Rightarrow> True)"

text \<open>A chat model none of whose rejections is beyond the wrapper.\<close>

definition llm_reportable :: "env \<Rightarrow> bool" where
  "llm_reportable env = (\<forall>site st. case llm_invoke env site st of Inl t \<Rightarrow> reportable t | Inr r \<Rightarrow> True)"

text \<open>A held promise, if any, is fulfilled.\<close>

definition promise_fulfilled :: "closure \<Rightarrow> bool" where
  "promise_fulfilled c =
     (case tavilyPrefetchPromise c of None \<Rightarrow> True | Some (Inl t) \<Rightarrow> False | Some (Inr d) \<Rightarrow> True)"

text \<open>
  The two counters of the prefetch agree: no promise and no execution yet, or a promise
  and one execution.
\<close>

definition prefetch_consistent :: "closure \<Rightarrow> bool" where
  "prefetch_consistent c =
     (case tavilyPrefetchPromise c of None \<Rightarrow> tavily_runs c = 0 | Some p \<Rightarrow> tavily_runs c = 1)"

section \<open>Concrete inputs\<close>

text \<open>An environment whose chat model rejects with \<^verbatim>\<open>null\<close> in the planning stage.\<close>

definition null_env :: env where
  "null_env = working_env \<lparr> llm_invoke := (\<lambda>site st. Inl Nullish) \<rparr>"

text \<open>
  An environment whose chat model answers the planning request with an object that has
  a value with a property named \<^verbatim>\<open>toString\<close>.
\<close>

definition odd_plan :: json where
  "odd_plan = JObj [(''trend_scan'', JObj [(''toString'', JNum 1)])]"

definition odd_reply :: string where
  "odd_reply = ''{'' @ dquote @ ''trend_scan'' @ dquote @ '': {'' @ dquote @ ''toString''
     @ dquote @ '': 1}}''"

definition odd_env :: env where
  "odd_env = working_env
     \<lparr> llm_invoke := (\<lambda>site st. Inr odd_reply),
       JSON_parse := (\<lambda>t. if t = odd_reply then Some odd_plan else None) \<rparr>"

definition long_message :: string where
  "long_message = replicate 100 CHR ''x''"


definition meal_planner :: state where
  "meal_planner = State_default \<lparr> idea := ''AI meal planner'' \<rparr>"

definition meal_input :: graph_input where
  "meal_input = \<lparr> input_idea = Some ''AI meal planner'', input_description = Some [] \<rparr>"

definition page :: "string \<Rightarrow> string \<Rightarrow> source" where
  "page u t = \<lparr> url = Some u, title = Some t, content = None \<rparr>"

definition held_closure :: closure where
  "held_closure = \<lparr> tavilyPrefetchPromise = Some (Inr tavily_fallback), tavily_runs = 1 \<rparr>"

definition short_request :: request where
  "short_request = \<lparr> query_idea = Some ''  ab  '', query_description = None \<rparr>"

definition meal_request :: request where
  "meal_request = \<lparr> query_idea = Some '' AI meal planner '', query_description = None \<rparr>"

section \<open>Properties of the deduplication\<close>

lemma url_keys_Nil: "url_keys [] = {}"
  by (simp add: url_keys_def)

lemma url_keys_Cons:
  "url_keys (s # ss) = (case url s of None \<Rightarrow> url_keys ss
     | Some u \<Rightarrow> if u = [] then url_keys ss else insert u (url_keys ss))"
  by (auto simp: url_keys_def split: option.splits)

lemma url_keys_append: "url_keys (xs @ ys) = url_keys xs \<union> url_keys ys"
  by (simp add: url_keys_def)

lemma url_keys_concat: "url_keys (concat rs) = (\<Union>r\<in>set rs. url_keys r)"
  by (induction rs) (simp_all add: url_keys_Nil url_keys_append)

lemma url_keys_iff: "u \<in> url_keys xs \<longleftrightarrow> u \<noteq> [] \<and> (\<exists>s\<in>set xs. url s = Some u)"
  by (induction xs) (auto simp: url_keys_Nil url_keys_Cons split: option.splits)

lemma dedupe_by_url_snoc:
  "dedupe_by_url seen (xs @ [x]) =
     dedupe_by_url seen xs @
       (case url x of None \<Rightarrow> []
        | Some u \<Rightarrow> if u = [] \<or> u \<in> seen \<union> url_keys xs then [] else [x])"
proof (induction xs arbitrary: seen)
  case Nil
  show ?case by (simp add: url_keys_Nil split: option.splits)
next
  case (Cons s ss)
  show ?case
    by (simp add: Cons.IH url_keys_Cons split: option.splits)
qed

lemma dedupe_by_url_keys:
  "url ` set (dedupe_by_url seen xs) = Some ` (url_keys xs - seen)"
proof (induction xs arbitrary: seen)
  case Nil
  show ?case by (simp add: url_keys_Nil)
next
  case (Cons s ss)
  show ?case
    by (cases "url s") (auto simp: Cons.IH url_keys_Cons)
qed

lemma dedupe_by_url_distinct: "distinct (map url (dedupe_by_url seen xs))"
proof (induction xs arbitrary: seen)
  case Nil
  show ?case by simp
next
  case (Cons s ss)
  show ?case
  proof (cases "url s")
    case None
    then show ?thesis by (simp add: Cons.IH)
  next
    case (Some u)
    have "Some u \<notin> url ` set (dedupe_by_url (insert u seen) ss)"
      unfolding dedupe_by_url_keys by auto
    with Some show ?thesis
      by (simp add: Cons.IH)
  qed
qed

lemma dedupe_by_url_subseq: "subseq (dedupe_by_url seen xs) xs"
  by (induction xs arbitrary: seen) (auto split: option.splits)

lemma dedupe_by_url_length: "length (dedupe_by_url seen xs) = card (url_keys xs - seen)"
proof -
  have "length (dedupe_by_url seen xs) = length (map url (dedupe_by_url seen xs))"
    by simp
  also have "\<dots> = card (set (map url (dedupe_by_url seen xs)))"
    using dedupe_by_url_distinct by (metis distinct_card)
  also have "\<dots> = card (Some ` (url_keys xs - seen))"
    by (simp add: dedupe_by_url_keys)
  also have "\<dots> = card (url_keys xs - seen)"
    by (simp add: card_image)
  finally show ?thesis .
qed

lemma first_occurrence_last:
  "first_occurrence (xs @ [x]) (length xs) \<longleftrightarrow>
     (case url x of None \<Rightarrow> False | Some u \<Rightarrow> u \<noteq> [] \<and> u \<notin> url_keys xs)"
proof (cases "url x")
  case None
  then show ?thesis by (simp add: first_occurrence_def has_url_def)
next
  case (Some u)
  have "(\<forall>j<length xs. url (xs ! j) \<noteq> Some u) \<longleftrightarrow> (\<forall>s\<in>set xs. url s \<noteq> Some u)"
    by (metis in_set_conv_nth)
  with Some show ?thesis
    by (auto simp: first_occurrence_def has_url_def list_all_iff nth_append url_keys_iff)
qed

lemma first_occurrence_prefix:
  "i < length xs \<Longrightarrow> first_occurrence (xs @ ys) i = first_occurrence xs i"
  by (simp add: first_occurrence_def list_all_iff nth_append)

lemma uniqueSources_positions:
  "uniqueSources xs = map (\<lambda>i. xs ! i) (filter (first_occurrence xs) [0..<length xs])"
proof (induction xs rule: rev_induct)
  case Nil
  show ?case by (simp add: uniqueSources_def)
next
  case (snoc x xs)
  have old: "map (\<lambda>i. (xs @ [x]) ! i) (filter (first_occurrence (xs @ [x])) [0..<length xs])
      = map (\<lambda>i. xs ! i) (filter (first_occurrence xs) [0..<length xs])"
  proof -
    have "filter (first_occurrence (xs @ [x])) [0..<length xs]
        = filter (first_occurrence xs) [0..<length xs]"
      by (rule filter_cong) (simp_all add: first_occurrence_prefix)
    moreover have "map (\<lambda>i. (xs @ [x]) ! i) (filter (first_occurrence xs) [0..<length xs])
        = map (\<lambda>i. xs ! i) (filter (first_occurrence xs) [0..<length xs])"
      by (rule map_cong) (simp_all add: nth_append)
    ultimately show ?thesis by simp
  qed
  have "uniqueSources (xs @ [x]) = uniqueSources xs @
      (if first_occurrence (xs @ [x]) (length xs) then [x] else [])"
    by (simp add: uniqueSources_def dedupe_by_url_snoc first_occurrence_last split: option.splits)
  also have "\<dots> = map (\<lambda>i. (xs @ [x]) ! i) (filter (first_occurrence (xs @ [x])) [0..<length (xs @ [x])])"
    by (simp add: old snoc.IH)
  finally show ?case .
qed

text \<open>
  C7. The deduplication keeps exactly the items at the positions that hold the first
  occurrence of a URL key, unchanged and in their original order (it is a subsequence
  of its input with pairwise distinct URLs); so for the result sets of several queries
  the number of unique sources is the size of the union of their URL key sets.
\<close>

theorem uniqueSources_first_occurrences:
  "uniqueSources xs = map (\<lambda>i. xs ! i) (filter (first_occurrence xs) [0..<length xs])
   \<and> subseq (uniqueSources xs) xs
   \<and> distinct (map url (uniqueSources xs))
   \<and> length (uniqueSources (concat rs)) = card (\<Union>r\<in>set rs. url_keys r)"
proof -
  have "subseq (uniqueSources xs) xs"
    by (simp add: uniqueSources_def dedupe_by_url_subseq)
  moreover have "distinct (map url (uniqueSources xs))"
    by (simp add: uniqueSources_def dedupe_by_url_distinct)
  moreover have "length (uniqueSources (concat rs)) = card (\<Union>r\<in>set rs. url_keys r)"
    by (simp add: uniqueSources_def dedupe_by_url_length url_keys_concat del: set_concat)
  ultimately show ?thesis
    using uniqueSources_positions [of xs] by blast
qed

section \<open>Properties of the fan-out\<close>







section \<open>Properties of the rate limiter\<close>

lemma slots_Cons: "slots s (now # nows) = max now s # slots (max now s + 5600) nows"
  by (simp add: throttle_def Let_def max_def)

lemma slots_length: "length (slots s nows) = length nows"
  by (induction nows arbitrary: s) (simp_all add: slots_Cons del: slots.simps(2))

lemma slots_lower: "r \<in> set (slots s nows) \<Longrightarrow> s \<le> r"
proof (induction nows arbitrary: s)
  case Nil
  then show ?case by simp
next
  case (Cons now nows)
  from Cons.prems have "r = max now s \<or> r \<in> set (slots (max now s + 5600) nows)"
    by (simp add: slots_Cons del: slots.simps(2))
  then show ?case
  proof
    assume "r = max now s"
    then show ?thesis by simp
  next
    assume "r \<in> set (slots (max now s + 5600) nows)"
    then have "max now s + 5600 \<le> r" by (rule Cons.IH)
    then show ?thesis by simp
  qed
qed

lemma slots_spaced:
  "i < j \<Longrightarrow> j < length nows \<Longrightarrow> slots s nows ! i + 5600 \<le> slots s nows ! j"
proof (induction nows arbitrary: s i j)
  case Nil
  then show ?case by simp
next
  case (Cons now nows)
  from Cons.prems obtain j' where j: "j = Suc j'" and j': "j' < length nows"
    by (cases j) auto
  show ?case
  proof (cases i)
    case 0
    have "slots (max now s + 5600) nows ! j' \<in> set (slots (max now s + 5600) nows)"
      using j' by (simp add: slots_length)
    then have "max now s + 5600 \<le> slots (max now s + 5600) nows ! j'"
      by (rule slots_lower)
    with 0 j show ?thesis
      by (simp add: slots_Cons del: slots.simps(2))
  next
    case (Suc i')
    with Cons.prems j have "i' < j'" by simp
    from Cons.IH [OF this j'] Suc j show ?thesis
      by (simp add: slots_Cons del: slots.simps(2))
  qed
qed

lemma releases_nth:
  "i < length calls \<Longrightarrow>
     releases s calls ! i = slots s (map fst calls) ! i + int (snd (calls ! i))"
proof (induction calls arbitrary: s i)
  case Nil
  then show ?case by simp
next
  case (Cons call calls)
  obtain now late where call: "call = (now, late)" by (cases call)
  show ?case
  proof (cases i)
    case 0
    with call show ?thesis by (simp add: throttle_def Let_def)
  next
    case (Suc i')
    with Cons.prems have "i' < length calls" by simp
    from Cons.IH [OF this] Suc call show ?thesis
      by (simp add: throttle_def Let_def)
  qed
qed

text \<open>
  C2 (amended). For any two calls on one \<^verbatim>\<open>_nextSlot\<close>, whatever the clock readings and
  the initial value, the slots they reserve are at least 5600 ms apart, and each caller
  is released at its slot plus the lateness of its resumption; so the releases are at
  least 5600 ms apart less the lateness of the earlier one.
\<close>

theorem throttle_slots_spaced:
  assumes "i < j" "j < length calls"
  shows "slots s (map fst calls) ! i + 5600 \<le> slots s (map fst calls) ! j
    \<and> releases s calls ! i = slots s (map fst calls) ! i + int (snd (calls ! i))
    \<and> releases s calls ! j = slots s (map fst calls) ! j + int (snd (calls ! j))
    \<and> releases s calls ! i + 5600 \<le> releases s calls ! j + int (snd (calls ! i))"
proof -
  have spaced: "slots s (map fst calls) ! i + 5600 \<le> slots s (map fst calls) ! j"
    using assms by (intro slots_spaced) simp_all
  have ri: "releases s calls ! i = slots s (map fst calls) ! i + int (snd (calls ! i))"
    using assms by (intro releases_nth) simp
  have rj: "releases s calls ! j = slots s (map fst calls) ! j + int (snd (calls ! j))"
    using assms by (intro releases_nth) simp
  from spaced ri rj show ?thesis by simp
qed

theorem throttle_slots_spaced_witness:
  "(0::nat) < 2 \<and> (2::nat) < length [(1000::int, 0::nat), (1001, 4), (1002, 0), (20000, 0)]
   \<and> slots 0 [1000, 1001, 1002, 20000] = [1000, 6600, 12200, 20000]
   \<and> releases 0 [(1000, 0), (1001, 4), (1002, 0), (20000, 0)] = [1000, 6604, 12200, 20000]
   \<and> releases 0 [(1000, 0), (1001, 4), (1002, 0), (20000, 0)] ! 0 + 5600
       \<le> releases 0 [(1000, 0), (1001, 4), (1002, 0), (20000, 0)] ! 2"
  using throttle_slots_spaced [of 0 2 "[(1000, 0), (1001, 4), (1002, 0), (20000, 0)]" 0]
  by (simp add: throttle_def)

text \<open>
  The claim as stated fails when the earlier caller resumes late: two calls at the same
  clock reading, the first resumed 3 ms after its slot, are released 5597 ms apart.
\<close>

theorem throttle_releases_closer_than_interval:
  "releases 0 [(1000, 3), (1000, 0)] = [1003, 6600]
   \<and> \<not> (releases 0 [(1000, 3), (1000, 0)] ! 0 + 5600 \<le> releases 0 [(1000, 3), (1000, 0)] ! 1)"
  by (simp add: throttle_def)

section \<open>Properties of the wrapper\<close>

lemma error_description_length: "length (error_description err) \<le> 80"
  by (simp add: error_description_def split: option.splits)

lemma warn_description_reportable: "reportable t \<Longrightarrow> \<exists>d. warn_description t = Inr d"
  by (cases t) auto

lemma warn_description_unreportable: "\<not> reportable t \<Longrightarrow> \<exists>e. warn_description t = Inl e"
  by (cases t) auto

text \<open>
  C3. When the stage body returns a patch, the wrapper returns it and emits nothing.
  When the body throws a value with a string or absent message, the wrapper emits
  exactly one event of type \<^verbatim>\<open>warn\<close>, whose message names the stage and carries the
  error's message cut to 80 code units (or \<^verbatim>\<open>unknown error\<close>), and returns the fallback
  patch for the state. When the body throws \<^verbatim>\<open>null\<close> or \<^verbatim>\<open>undefined\<close>, or a value whose
  message has no callable \<^verbatim>\<open>slice\<close>, the wrapper itself raises a \<^verbatim>\<open>TypeError\<close>: it emits
  nothing and returns no patch.
\<close>

theorem wrapNode_raises_on_unreadable_error:
  "(fn c st = (c', Inr p) \<longrightarrow> wrapNode name fn fallbackFactory c st = (c', [], Inr p))
   \<and> (fn c st = (c', Inl (Thrown e)) \<longrightarrow>
        wrapNode name fn fallbackFactory c st
          = (c', [warn_event name (error_description e)], Inr (fallbackFactory st))
        \<and> etype (warn_event name (error_description e)) = ''warn''
        \<and> msg (warn_event name (error_description e)) =
            ''  '' @ warn_sign @ '' '' @ name @ '' failed: '' @ error_description e
              @ '' '' @ em_dash @ '' continuing with partial data''
        \<and> error_description e =
            (case message e of None \<Rightarrow> ''unknown error''
             | Some m \<Rightarrow> if m = [] then ''unknown error'' else take 80 m)
        \<and> length (error_description e) \<le> 80)
   \<and> (fn c st = (c', Inl (Odd_message (Some s))) \<longrightarrow>
        wrapNode name fn fallbackFactory c st = (c', [warn_event name s], Inr (fallbackFactory st)))
   \<and> (fn c st = (c', Inl Nullish) \<longrightarrow>
        wrapNode name fn fallbackFactory c st
          = (c', [], Inl (Thrown (TypeError ''Cannot read properties of null or undefined''))))
   \<and> (fn c st = (c', Inl (Odd_message None)) \<longrightarrow>
        wrapNode name fn fallbackFactory c st
          = (c', [], Inl (Thrown (TypeError ''err.message?.slice is not a function''))))"
proof -
  have descr: "error_description e =
      (case message e of None \<Rightarrow> ''unknown error''
       | Some m \<Rightarrow> if m = [] then ''unknown error'' else take 80 m)"
    by (simp add: error_description_def split: option.splits)
  show ?thesis
    using descr error_description_length [of e]
    by (simp add: wrapNode_def warn_event_def)
qed

theorem wrapNode_raises_on_unreadable_error_witness:
  "wrapNode ''Demand'' (\<lambda>c st. (c, Inl Nullish)) (\<lambda>st. Set_demandData demand_fallback)
       fresh_closure State_default
     = (fresh_closure, [], Inl (Thrown (TypeError ''Cannot read properties of null or undefined'')))
   \<and> wrapNode ''Demand'' (\<lambda>c st. (c, Inl (Thrown (Error (Some long_message)))))
       (\<lambda>st. Set_demandData demand_fallback) fresh_closure State_default
     = (fresh_closure, [warn_event ''Demand'' (replicate 80 CHR ''x'')],
        Inr (Set_demandData demand_fallback))
   \<and> wrapNode ''Demand'' (\<lambda>c st. (c, Inr (Set_demandData JNull))) (\<lambda>st. Set_demandData demand_fallback)
       fresh_closure State_default
     = (fresh_closure, [], Inr (Set_demandData JNull))"
  using wrapNode_raises_on_unreadable_error [of "\<lambda>c st. (c, Inl Nullish)" fresh_closure State_default
      fresh_closure "Set_demandData JNull" "''Demand''" "\<lambda>st. Set_demandData demand_fallback"
      "Error (Some long_message)" "''s''"]
    wrapNode_raises_on_unreadable_error [of "\<lambda>c st. (c, Inl (Thrown (Error (Some long_message))))"
      fresh_closure State_default
      fresh_closure "Set_demandData JNull" "''Demand''" "\<lambda>st. Set_demandData demand_fallback"
      "Error (Some long_message)" "''s''"]
    wrapNode_raises_on_unreadable_error [of "\<lambda>c st. (c, Inr (Set_demandData JNull))" fresh_closure State_default
      fresh_closure "Set_demandData JNull" "''Demand''" "\<lambda>st. Set_demandData demand_fallback"
      "Error (Some long_message)" "''s''"]
  by (simp add: long_message_def)

section \<open>Properties of the web research task\<close>

lemma gatherAll_snd: "snd (gatherAll ms tasks) = map (\<lambda>p. snd (race_timeout ms p)) tasks"
  by (simp add: gatherAll_def allSettled_def comp_def)

lemma collect_settled_sources:
  "fst (collect_settled (zip qs (map f qs))) =
     concat (map (\<lambda>q. case f q of
                        Fulfilled (Some v) \<Rightarrow> (case results v of None \<Rightarrow> [] | Some rs \<Rightarrow> rs)
                      | Fulfilled None \<Rightarrow> []
                      | Rejected e \<Rightarrow> []) qs)"
  by (induction qs) (auto split: prod.splits settled.splits option.splits)

lemma runSingleTavilyResearch_eq:
  "runSingleTavilyResearch search i =
     Inr \<lparr> searchResults = [],
           sources = take 15 (uniqueSources (successful_results search i)),
           summary = js_join (newline @ newline)
             (snd (collect_settled (zip (searchQueries i)
                (snd (gatherAll 25000 (map search (searchQueries i))))))),
           sourceCount = length (uniqueSources (successful_results search i)) \<rparr>"
proof -
  have "fst (collect_settled (zip (searchQueries i)
            (snd (gatherAll 25000 (map search (searchQueries i))))))
        = successful_results search i"
    using collect_settled_sources [of "searchQueries i" "\<lambda>q. snd (race_timeout 25000 (search q))"]
    by (simp add: gatherAll_snd successful_results_def comp_def)
  then show ?thesis
    by (cases "collect_settled (zip (searchQueries i)
            (snd (gatherAll 25000 (map search (searchQueries i)))))")
      (simp add: runSingleTavilyResearch_def Let_def)
qed

lemma dedupe_by_url_has_url:
  assumes "s \<in> set (dedupe_by_url seen xs)"
  shows "has_url s"
proof -
  from assms have "url s \<in> url ` set (dedupe_by_url seen xs)" by (rule imageI)
  then obtain u where "url s = Some u" "u \<in> url_keys xs"
    unfolding dedupe_by_url_keys by auto
  then show ?thesis by (simp add: has_url_def url_keys_iff)
qed

lemma uniqueSources_has_url: "list_all has_url (take n (uniqueSources xs))"
  by (auto simp: list_all_iff uniqueSources_def dest: in_set_takeD dedupe_by_url_has_url)

lemma uniqueSources_take_distinct: "distinct (map url (take n (uniqueSources xs)))"
proof -
  have "distinct (take n (map url (uniqueSources xs)))"
    by (rule distinct_take) (simp add: uniqueSources_def dedupe_by_url_distinct)
  then show ?thesis by (simp add: take_map)
qed

lemma uniqueSources_length: "length (uniqueSources xs) = card (url_keys xs)"
  by (simp add: uniqueSources_def dedupe_by_url_length)

lemma sixteen_pages_unique: "uniqueSources (sixteen_pages @ sixteen_pages @ sixteen_pages @ sixteen_pages) = sixteen_pages"
  by code_simp

lemma page_search_results: "successful_results page_search i = sixteen_pages @ sixteen_pages @ sixteen_pages @ sixteen_pages"
  by (simp add: successful_results_def page_search_def searchQueries_def)

lemma length_sixteen_pages: "length sixteen_pages = 16"
  by (simp add: sixteen_pages_def)

text \<open>
  C10. The web research task always returns; its \<^verbatim>\<open>sources\<close> are the first 15 unique
  sources, so at most 15, each with a non-empty URL, no URL twice; \<^verbatim>\<open>sourceCount\<close> is the
  number of distinct URL keys over the results of the successful searches, hence at
  least the length of \<^verbatim>\<open>sources\<close>, and it exceeds that length when the searches
  return sixteen distinct pages.
\<close>

theorem web_intel_sources_bounded:
  "(\<exists>d. runSingleTavilyResearch search i = Inr d
      \<and> sources d = take 15 (uniqueSources (successful_results search i))
      \<and> length (sources d) \<le> 15
      \<and> list_all has_url (sources d)
      \<and> distinct (map url (sources d))
      \<and> sourceCount d = card (url_keys (successful_results search i))
      \<and> length (sources d) \<le> sourceCount d)
   \<and> (\<exists>d. runSingleTavilyResearch page_search i = Inr d \<and> length (sources d) < sourceCount d)"
proof -
  have "length (take 15 (uniqueSources (successful_results page_search i)))
      < length (uniqueSources (successful_results page_search i))"
    by (simp add: page_search_results sixteen_pages_unique length_sixteen_pages)
  then show ?thesis
    by (simp add: runSingleTavilyResearch_eq uniqueSources_has_url uniqueSources_take_distinct
        uniqueSources_length [symmetric])
qed

theorem web_intel_sources_bounded_witness:
  "(\<exists>d. runSingleTavilyResearch page_search ''solar kettle'' = Inr d
      \<and> sources d = take 15 sixteen_pages \<and> sourceCount d = 16 \<and> length (sources d) = 15)"
  using web_intel_sources_bounded [of page_search "''solar kettle''"]
  by (simp add: runSingleTavilyResearch_eq page_search_results sixteen_pages_unique length_sixteen_pages)

section \<open>Properties of the graph\<close>

lemma wrapNode_Inl:
  "wrapNode name fn fb c st = (c', es, Inl t) \<Longrightarrow> \<exists>e. t = Thrown e"
  by (auto simp: wrapNode_def split: prod.splits sum.splits)

lemma wrapNode_reportable:
  assumes "case snd (fn c st) of Inl t \<Rightarrow> reportable t | Inr p \<Rightarrow> True"
  shows "\<exists>es p. wrapNode name fn fb c st = (fst (fn c st), es, Inr p)"
proof (cases "fn c st")
  case (Pair c' r)
  show ?thesis
  proof (cases r)
    case (Inl t)
    with Pair assms obtain d where "warn_description t = Inr d"
      using warn_description_reportable [of t] by auto
    with Pair Inl show ?thesis by (simp add: wrapNode_def)
  next
    case (Inr p)
    with Pair show ?thesis by (simp add: wrapNode_def)
  qed
qed

lemma run_nodes_append:
  "run_nodes (ns @ ms) c evs st =
     (case run_nodes ns c evs st of
        (c', evs', Inl err) \<Rightarrow> (c', evs', Inl err)
      | (c', evs', Inr st') \<Rightarrow> run_nodes ms c' evs' st')"
  by (induction ns arbitrary: c evs st) (auto split: prod.splits sum.splits)

lemma run_nodes_snoc:
  "run_nodes (ns @ [n]) c evs st =
     (case run_nodes ns c evs st of
        (c', evs', Inl err) \<Rightarrow> (c', evs', Inl err)
      | (c', evs', Inr st') \<Rightarrow>
          (case n c' st' of
             (c'', es, Inl err) \<Rightarrow> (c'', evs' @ es, Inl err)
           | (c'', es, Inr p) \<Rightarrow> (c'', evs' @ es, Inr (apply_patch st' p))))"
  by (simp add: run_nodes_append split: prod.splits sum.splits)

lemma run_nodes_total:
  "(\<And>n c st. n \<in> set ns \<Longrightarrow> \<exists>c' es p. n c st = (c', es, Inr p))
     \<Longrightarrow> \<exists>c' evs' st'. run_nodes ns c evs st = (c', evs', Inr st')"
proof (induction ns arbitrary: c evs st)
  case Nil
  show ?case by simp
next
  case (Cons n ns)
  obtain c1 es p where n: "n c st = (c1, es, Inr p)"
    using Cons.prems [of n c st] by auto
  have "\<exists>c' evs' st'. run_nodes ns c1 (evs @ es) (apply_patch st p) = (c', evs', Inr st')"
    by (rule Cons.IH) (simp add: Cons.prems)
  with n show ?case by simp
qed

lemma run_nodes_Inl:
  assumes "\<forall>n\<in>set ns. \<forall>c st c' es t. n c st = (c', es, Inl t) \<longrightarrow> (\<exists>e. t = Thrown e)"
    and "run_nodes ns c evs st = (c', evs', Inl t)"
  shows "\<exists>e. t = Thrown e"
  using assms
proof (induction ns arbitrary: c evs st)
  case Nil
  then show ?case by simp
next
  case (Cons n ns)
  obtain c1 es r where n: "n c st = (c1, es, r)" by (cases "n c st") auto
  show ?case
  proof (cases r)
    case (Inl t')
    with n Cons.prems(2) have "t' = t" by simp
    with n Inl Cons.prems(1) show ?thesis by auto
  next
    case (Inr p)
    with n Cons.prems(2) have run: "run_nodes ns c1 (evs @ es) (apply_patch st p) = (c', evs', Inl t)"
      by simp
    from Cons.prems(1)
    have tail: "\<forall>n\<in>set ns. \<forall>c st c' es t. n c st = (c', es, Inl t) \<longrightarrow> (\<exists>e. t = Thrown e)"
      by simp
    from Cons.IH [OF tail run] show ?thesis .
  qed
qed

lemma graph_nodes_Inl:
  "n \<in> set (graph_nodes f1 f2 f3 f4 f5 f6 f7 f8) \<Longrightarrow> n c st = (c', es, Inl t) \<Longrightarrow> \<exists>e. t = Thrown e"
  by (auto simp: graph_nodes_def dest: wrapNode_Inl)

lemma announce_verdict_Inr:
  "announce_verdict v = Inr p \<Longrightarrow> p = Set_verdict v \<and> v \<noteq> JNull"
  by (auto simp: announce_verdict_def split: if_splits option.splits json.splits)

lemma announce_verdict_Inl: "announce_verdict v = Inl t \<Longrightarrow> \<exists>e. t = Thrown e"
  by (auto simp: announce_verdict_def split: if_splits option.splits json.splits)

lemma js_prop_fallback_recommendation:
  "js_prop (fallbackVerdict st) ''recommendation'' = Some (JStr ''explore'')"
  by (simp add: fallbackVerdict_def)

lemma js_prop_fallback_score:
  "js_prop (fallbackVerdict st) ''score'' = Some (fallback_score st)"
  by (simp add: fallbackVerdict_def)

lemma fallbackVerdict_non_null: "fallbackVerdict st \<noteq> JNull"
  by (simp add: fallbackVerdict_def)

lemma parse_reply_Inr: "parse_reply env reply = Inr v \<Longrightarrow> \<exists>t. JSON_parse env t = Some v"
  by (auto simp: parse_reply_def split: option.splits)

lemma geminiSynthesis_closure: "fst (geminiSynthesis env c st) = c"
  by (simp add: geminiSynthesis_def)

lemma geminiSynthesis_Inr:
  assumes "snd (geminiSynthesis env c st) = Inr p"
  shows "\<exists>v. p = Set_verdict v \<and> v \<noteq> JNull \<and> verdict_origin env st v"
proof -
  from assms obtain v where a: "announce_verdict v = Inr p"
    and o: "v = fallbackVerdict st \<or> (\<exists>reply. parse_reply env reply = Inr v)"
    by (auto simp: geminiSynthesis_def split: sum.splits if_splits)
  from a have "p = Set_verdict v \<and> v \<noteq> JNull" by (rule announce_verdict_Inr)
  moreover from o have "verdict_origin env st v"
    by (auto simp: verdict_origin_def dest: parse_reply_Inr)
  ultimately show ?thesis by blast
qed

lemma geminiSynthesis_Inl:
  "snd (geminiSynthesis env c st) = Inl t \<Longrightarrow> \<exists>e. t = Thrown e"
  by (auto simp: geminiSynthesis_def split: sum.splits if_splits dest: announce_verdict_Inl)

lemma synthesis_node_verdict:
  "\<exists>es v. wrapNode ''Synthesis'' (geminiSynthesis env) (\<lambda>st. Set_verdict (fallbackVerdict st)) c st
       = (c, es, Inr (Set_verdict v)) \<and> v \<noteq> JNull \<and> verdict_origin env st v"
proof (cases "snd (geminiSynthesis env c st)")
  case (Inl t)
  then obtain e where "t = Thrown e" using geminiSynthesis_Inl by blast
  with Inl have "geminiSynthesis env c st = (c, Inl (Thrown e))"
    using geminiSynthesis_closure [of env c st] by (metis prod.collapse)
  then show ?thesis
    by (simp add: wrapNode_def fallbackVerdict_non_null verdict_origin_def)
next
  case (Inr p)
  then obtain v where v: "p = Set_verdict v" "v \<noteq> JNull" "verdict_origin env st v"
    using geminiSynthesis_Inr by blast
  from Inr have "geminiSynthesis env c st = (c, Inr p)"
    using geminiSynthesis_closure [of env c st] by (metis prod.collapse)
  with v show ?thesis by (simp add: wrapNode_def)
qed

lemma graph_nodes_snoc:
  "graph_nodes f1 f2 f3 f4 f5 f6 f7 f8 =
     butlast (graph_nodes f1 f2 f3 f4 f5 f6 f7 f8)
       @ [wrapNode ''Synthesis'' f8 (\<lambda>st. Set_verdict (fallbackVerdict st))]"
  by (simp add: graph_nodes_def)

lemma graph_nodes_butlast_total:
  assumes "throws_reportable f1" "throws_reportable f2" "throws_reportable f3" "throws_reportable f4"
    "throws_reportable f5" "throws_reportable f6" "throws_reportable f7"
    and "n \<in> set (butlast (graph_nodes f1 f2 f3 f4 f5 f6 f7 f8))"
  shows "\<exists>c' es p. n c st = (c', es, Inr p)"
proof -
  have "\<exists>c' es p. wrapNode name fn fb c st = (c', es, Inr p)" if "throws_reportable fn" for name fn fb
    using that wrapNode_reportable [of fn c st name fb] by (auto simp: throws_reportable_def)
  with assms show ?thesis by (auto simp: graph_nodes_def)
qed

lemma fallbackVerdict_verdict_update [simp]:
  "fallbackVerdict (st\<lparr>verdict := v\<rparr>) = fallbackVerdict st"
  by (simp add: fallbackVerdict_def fallback_score_def)

text \<open>A run that completes has gone through the synthesis node, so its verdict is set.\<close>

lemma graph_run_outcome:
  assumes "run_nodes (graph_nodes g1 g2 g3 g4 g5 g6 g7 (geminiSynthesis env)) k0 e0 s0 = (c, evs, r)"
  shows "(\<exists>st. r = Inr st \<and> verdict st \<noteq> JNull \<and> verdict_origin env st (verdict st))
     \<or> (\<exists>e. r = Inl (Thrown e))"
proof (cases r)
  case (Inl t)
  have "\<forall>n\<in>set (graph_nodes g1 g2 g3 g4 g5 g6 g7 (geminiSynthesis env)).
      \<forall>c st c' es t. n c st = (c', es, Inl t) \<longrightarrow> (\<exists>e. t = Thrown e)"
    using graph_nodes_Inl by blast
  from run_nodes_Inl [OF this] assms Inl
  have "\<exists>e. t = Thrown e" by blast
  with Inl show ?thesis by blast
next
  case (Inr st)
  let ?ns = "butlast (graph_nodes g1 g2 g3 g4 g5 g6 g7 (geminiSynthesis env))"
  let ?last = "wrapNode ''Synthesis'' (geminiSynthesis env) (\<lambda>st. Set_verdict (fallbackVerdict st))"
  from assms Inr have run: "run_nodes (?ns @ [?last]) k0 e0 s0 = (c, evs, Inr st)"
    using graph_nodes_snoc [of g1 g2 g3 g4 g5 g6 g7 "geminiSynthesis env"] by simp
  obtain c7 evs7 r7 where seven: "run_nodes ?ns k0 e0 s0 = (c7, evs7, r7)"
    by (cases "run_nodes ?ns k0 e0 s0") auto
  from run seven obtain st7 where r7: "r7 = Inr st7"
    by (cases r7) (auto simp: run_nodes_snoc)
  obtain es v where eight: "?last c7 st7 = (c7, es, Inr (Set_verdict v))"
    and v: "v \<noteq> JNull" "verdict_origin env st7 v"
    using synthesis_node_verdict [of env c7 st7] by blast
  from run seven r7 eight have "st = st7\<lparr>verdict := v\<rparr>"
    by (simp add: run_nodes_snoc)
  moreover have "verdict_origin env (st7\<lparr>verdict := v\<rparr>) v"
    using v(2) by (simp add: verdict_origin_def)
  ultimately show ?thesis using v(1) Inr by simp
qed

lemma graph_run_verdict:
  assumes "throws_reportable g1" "throws_reportable g2" "throws_reportable g3" "throws_reportable g4"
    "throws_reportable g5" "throws_reportable g6" "throws_reportable g7"
  shows "\<exists>c evs st. run_nodes (graph_nodes g1 g2 g3 g4 g5 g6 g7 (geminiSynthesis env)) k0 e0 s0
        = (c, evs, Inr st) \<and> verdict st \<noteq> JNull \<and> verdict_origin env st (verdict st)"
proof -
  let ?ns = "butlast (graph_nodes g1 g2 g3 g4 g5 g6 g7 (geminiSynthesis env))"
  let ?last = "wrapNode ''Synthesis'' (geminiSynthesis env) (\<lambda>st. Set_verdict (fallbackVerdict st))"
  obtain c7 evs7 st7 where seven: "run_nodes ?ns k0 e0 s0 = (c7, evs7, Inr st7)"
    using run_nodes_total [of ?ns k0 e0 s0] graph_nodes_butlast_total [OF assms] by blast
  obtain es v where eight: "?last c7 st7 = (c7, es, Inr (Set_verdict v))"
    using synthesis_node_verdict [of env c7 st7] by blast
  have "run_nodes (?ns @ [?last]) k0 e0 s0 = (c7, evs7 @ es, Inr (st7\<lparr>verdict := v\<rparr>))"
    by (simp add: run_nodes_snoc seven eight)
  then have run: "run_nodes (graph_nodes g1 g2 g3 g4 g5 g6 g7 (geminiSynthesis env)) k0 e0 s0
      = (c7, evs7 @ es, Inr (st7\<lparr>verdict := v\<rparr>))"
    using graph_nodes_snoc [of g1 g2 g3 g4 g5 g6 g7 "geminiSynthesis env"] by simp
  from graph_run_outcome [OF run] run show ?thesis by auto
qed

section \<open>Properties of the nodes of the source's graph\<close>

lemma runSingleTavilyResearch_Inr: "\<exists>d. runSingleTavilyResearch search i = Inr d"
  by (simp add: runSingleTavilyResearch_eq)

lemma planQueries_closure:
  "fst (planQueries env c st) = c \<or> fst (planQueries env c st) = start_prefetch env c st"
  by (auto simp: planQueries_def Let_def split: sum.splits)

lemma planQueries_throws:
  "snd (planQueries env c st) = Inl t \<Longrightarrow>
     fst (planQueries env c st) = c \<and> (llm_invoke env Plan_call st = Inl t \<or> (\<exists>e. t = Thrown e))"
  by (auto simp: planQueries_def Let_def split: sum.splits if_splits)

lemma start_prefetch_fulfilled: "promise_fulfilled c \<Longrightarrow> promise_fulfilled (start_prefetch env c st)"
  using runSingleTavilyResearch_Inr [of "tvly_search env (tavily_runs c)" "idea st"]
  by (auto simp: promise_fulfilled_def start_prefetch_def split: option.splits)

lemma planQueries_fulfilled: "promise_fulfilled c \<Longrightarrow> promise_fulfilled (fst (planQueries env c st))"
  using planQueries_closure [of env c st] start_prefetch_fulfilled [of c env st] by auto

lemma plan_node_total:
  assumes "llm_reportable env"
  shows "\<exists>es p. wrapNode name (planQueries env) fb c st = (fst (planQueries env c st), es, Inr p)"
proof -
  have ok: "case snd (planQueries env c st) of Inl t \<Rightarrow> reportable t | Inr p \<Rightarrow> True"
  proof (cases "snd (planQueries env c st)")
    case (Inl t)
    from planQueries_throws [OF Inl] assms have "reportable t"
      by (auto simp: llm_reportable_def split: sum.splits)
    with Inl show ?thesis by simp
  next
    case (Inr p)
    then show ?thesis by simp
  qed
  show ?thesis
    using wrapNode_reportable [of "planQueries env" c st name fb] ok by simp
qed

lemma llm_stage_closure: "fst (llm_stage env site channel c st) = c"
  by (simp add: llm_stage_def)

lemma llm_stage_throws:
  "snd (llm_stage env site channel c st) = Inl t \<Longrightarrow>
     llm_invoke env site st = Inl t \<or> (\<exists>e. t = Thrown e)"
  by (auto simp: llm_stage_def split: sum.splits)

lemma llm_node_total:
  assumes "llm_reportable env"
  shows "\<exists>es p. wrapNode name (llm_stage env site channel) fb c st = (c, es, Inr p)"
proof -
  have ok: "case snd (llm_stage env site channel c st) of Inl t \<Rightarrow> reportable t | Inr p \<Rightarrow> True"
  proof (cases "snd (llm_stage env site channel c st)")
    case (Inl t)
    from llm_stage_throws [OF Inl] assms have "reportable t"
      by (auto simp: llm_reportable_def split: sum.splits)
    with Inl show ?thesis by simp
  next
    case (Inr p)
    then show ?thesis by simp
  qed
  show ?thesis
    using wrapNode_reportable [of "llm_stage env site channel" c st name fb] ok
    by (simp add: llm_stage_closure)
qed

lemma community_node:
  "\<exists>es d. wrapNode name (communityResearch env) fb c st = (c, es, Inr (Set_communityData d))"
  by (simp add: wrapNode_def communityResearch_def Let_def)

lemma tavilyResearch_runs:
  "tavily_runs (fst (tavilyResearch env c st)) =
     (case tavilyPrefetchPromise c of None \<Rightarrow> Suc (tavily_runs c) | Some p \<Rightarrow> tavily_runs c)"
  by (simp add: tavilyResearch_def split: option.splits)

lemma tavily_node_total:
  assumes "promise_fulfilled c"
  shows "\<exists>es d. wrapNode name (tavilyResearch env) fb c st
     = (fst (tavilyResearch env c st), es, Inr (Set_tavilyData d))"
proof (cases "tavilyPrefetchPromise c")
  case None
  obtain d where "runSingleTavilyResearch (tvly_search env (tavily_runs c)) (idea st) = Inr d"
    using runSingleTavilyResearch_Inr by blast
  with None show ?thesis by (simp add: wrapNode_def tavilyResearch_def)
next
  case (Some p)
  with assms obtain d where "p = Inr d"
    by (cases p) (auto simp: promise_fulfilled_def)
  with Some show ?thesis by (simp add: wrapNode_def tavilyResearch_def)
qed

lemma fresh_closure_fulfilled: "promise_fulfilled fresh_closure"
  by (simp add: promise_fulfilled_def fresh_closure_def)

text \<open>The run of the source's graph when the chat model's rejections are reportable.\<close>

lemma graph_invoke_verdict:
  assumes "llm_reportable env"
  shows "\<exists>c evs st. graph_invoke env inp = (c, evs, Inr st) \<and> verdict st \<noteq> JNull
     \<and> verdict_origin env st (verdict st) \<and> tavily_runs c = 1"
proof -
  let ?s0 = "initial_state inp"
  let ?c1 = "fst (planQueries env fresh_closure ?s0)"
  obtain e1 p1 where n1: "wrapNode ''Plan queries'' (planQueries env)
      (\<lambda>st. Set_queries (fallbackQueries (idea st))) fresh_closure ?s0 = (?c1, e1, Inr p1)"
    using plan_node_total [OF assms] by blast
  have c1: "promise_fulfilled ?c1"
    using planQueries_fulfilled [OF fresh_closure_fulfilled] .
  let ?s1 = "apply_patch ?s0 p1"
  obtain e2 p2 where n2: "wrapNode ''Trends'' (fetchTrends env) (\<lambda>st. Set_trendsData trends_fallback) ?c1 ?s1
      = (?c1, e2, Inr p2)"
    unfolding fetchTrends_def using llm_node_total [OF assms] by blast
  let ?s2 = "apply_patch ?s1 p2"
  obtain e3 p3 where n3: "wrapNode ''Demand'' (demandCheck env) (\<lambda>st. Set_demandData demand_fallback) ?c1 ?s2
      = (?c1, e3, Inr p3)"
    unfolding demandCheck_def using llm_node_total [OF assms] by blast
  let ?s3 = "apply_patch ?s2 p3"
  obtain e4 p4 where n4: "wrapNode ''Adopters'' (adopterSearch env) (\<lambda>st. Set_adopterData adopter_fallback) ?c1 ?s3
      = (?c1, e4, Inr p4)"
    unfolding adopterSearch_def using llm_node_total [OF assms] by blast
  let ?s4 = "apply_patch ?s3 p4"
  obtain e5 p5 where n5: "wrapNode ''Funders'' (funderSearch env) (\<lambda>st. Set_funderData funder_fallback) ?c1 ?s4
      = (?c1, e5, Inr p5)"
    unfolding funderSearch_def using llm_node_total [OF assms] by blast
  let ?s5 = "apply_patch ?s4 p5"
  obtain e6 d6 where n6: "wrapNode ''Community'' (communityResearch env)
      (\<lambda>st. Set_communityData community_fallback) ?c1 ?s5 = (?c1, e6, Inr (Set_communityData d6))"
    using community_node by blast
  let ?s6 = "apply_patch ?s5 (Set_communityData d6)"
  let ?c7 = "fst (tavilyResearch env ?c1 ?s6)"
  obtain e7 d7 where n7: "wrapNode ''Web intel'' (tavilyResearch env)
      (\<lambda>st. Set_tavilyData tavily_fallback) ?c1 ?s6 = (?c7, e7, Inr (Set_tavilyData d7))"
    using tavily_node_total [OF c1] by blast
  let ?s7 = "apply_patch ?s6 (Set_tavilyData d7)"
  obtain e8 v where n8: "wrapNode ''Synthesis'' (geminiSynthesis env)
      (\<lambda>st. Set_verdict (fallbackVerdict st)) ?c7 ?s7 = (?c7, e8, Inr (Set_verdict v))"
    and v: "v \<noteq> JNull" "verdict_origin env ?s7 v"
    using synthesis_node_verdict [of env ?c7 ?s7] by blast
  have run: "graph_invoke env inp
      = (?c7, e1 @ e2 @ e3 @ e4 @ e5 @ e6 @ e7 @ e8, Inr (apply_patch ?s7 (Set_verdict v)))"
    by (simp add: graph_invoke_def createResearchGraph_def graph_nodes_def n1 n2 n3 n4 n5 n6 n7 n8
        del: apply_patch.simps)
  have origin: "verdict_origin env (apply_patch ?s7 (Set_verdict v)) v"
    using v(2) by (simp add: verdict_origin_def)
  have "tavily_runs ?c1 = (case tavilyPrefetchPromise ?c1 of None \<Rightarrow> 0 | Some p \<Rightarrow> 1)"
    using planQueries_closure [of env fresh_closure ?s0]
    by (auto simp: start_prefetch_def fresh_closure_def)
  then have runs: "tavily_runs ?c7 = 1"
    by (simp add: tavilyResearch_runs split: option.splits)
  from run origin v(1) runs show ?thesis by simp
qed

text \<open>The run when the chat model rejects the planning request with \<^verbatim>\<open>null\<close>.\<close>

lemma graph_invoke_null_rejection:
  assumes "llm_invoke env Plan_call (initial_state inp) = Inl Nullish"
  shows "graph_invoke env inp
     = (fresh_closure, [], Inl (Thrown (TypeError ''Cannot read properties of null or undefined'')))"
  using assms
  by (simp add: graph_invoke_def createResearchGraph_def graph_nodes_def wrapNode_def planQueries_def)

lemma graph_invoke_outcome:
  assumes "graph_invoke env inp = (c, evs, r)"
  shows "(\<exists>st. r = Inr st \<and> verdict st \<noteq> JNull \<and> verdict_origin env st (verdict st))
     \<or> (\<exists>e. r = Inl (Thrown e))"
  using assms graph_run_outcome by (simp add: graph_invoke_def createResearchGraph_def)

text \<open>
  C1. When no stage body throws a value that the wrapper cannot report, the run of the
  graph completes with a state whose verdict is not \<^verbatim>\<open>null\<close>, parsed from a model's
  reply or equal to the fallback verdict; this holds whatever the first seven stage
  bodies are, and for the graph of the source whenever the chat model's rejections are
  reportable. A run ends either so or with a \<^verbatim>\<open>TypeError\<close> raised by a wrapper; and
  when the chat model rejects the planning request with \<^verbatim>\<open>null\<close>, the run rejects before
  any verdict exists.
\<close>

theorem pipeline_verdict_unless_wrapper_raises:
  "(throws_reportable f1 \<and> throws_reportable f2 \<and> throws_reportable f3 \<and> throws_reportable f4
      \<and> throws_reportable f5 \<and> throws_reportable f6 \<and> throws_reportable f7 \<longrightarrow>
      (\<exists>c evs st. run_nodes (graph_nodes f1 f2 f3 f4 f5 f6 f7 (geminiSynthesis env)) c0 evs0 st0
          = (c, evs, Inr st) \<and> verdict st \<noteq> JNull \<and> verdict_origin env st (verdict st)))
   \<and> (llm_reportable env \<longrightarrow>
        (\<exists>c evs st. graph_invoke env inp = (c, evs, Inr st) \<and> verdict st \<noteq> JNull
          \<and> verdict_origin env st (verdict st)))
   \<and> ((\<exists>c evs st. graph_invoke env inp = (c, evs, Inr st) \<and> verdict st \<noteq> JNull
          \<and> verdict_origin env st (verdict st))
       \<or> (\<exists>c evs e. graph_invoke env inp = (c, evs, Inl (Thrown e))))
   \<and> (llm_invoke env Plan_call (initial_state inp) = Inl Nullish \<longrightarrow>
        graph_invoke env inp
          = (fresh_closure, [], Inl (Thrown (TypeError ''Cannot read properties of null or undefined''))))"
proof -
  obtain c evs r where run: "graph_invoke env inp = (c, evs, r)"
    by (cases "graph_invoke env inp") auto
  from graph_invoke_outcome [OF run] run
  have either: "(\<exists>c evs st. graph_invoke env inp = (c, evs, Inr st) \<and> verdict st \<noteq> JNull
          \<and> verdict_origin env st (verdict st))
       \<or> (\<exists>c evs e. graph_invoke env inp = (c, evs, Inl (Thrown e)))"
    by auto
  show ?thesis
    using graph_run_verdict [of f1 f2 f3 f4 f5 f6 f7 env c0 evs0 st0]
      graph_invoke_verdict [of env inp] either graph_invoke_null_rejection [of env inp]
    by blast
qed

section \<open>The run when the models raise\<close>

lemma isl_Inl: "isl x \<Longrightarrow> \<exists>e. x = Inl e"
  by (cases x) simp_all

lemma llm_node_fails:
  assumes "llm_invoke env site st = Inl t" "reportable t"
  shows "\<exists>es. wrapNode name (llm_stage env site channel) fb c st = (c, es, Inr (fb st))"
proof (cases "gather env site st")
  case (Inl err)
  then show ?thesis by (simp add: wrapNode_def llm_stage_def)
next
  case (Inr g)
  from assms(2) obtain d where "warn_description t = Inr d"
    using warn_description_reportable by blast
  with Inr assms(1) show ?thesis by (simp add: wrapNode_def llm_stage_def)
qed

lemma plan_node_fails:
  assumes "llm_invoke env Plan_call st = Inl t" "reportable t"
  shows "\<exists>es. wrapNode name (planQueries env) fb c st = (c, es, Inr (fb st))"
proof -
  from assms(2) obtain d where "warn_description t = Inr d"
    using warn_description_reportable by blast
  with assms(1) show ?thesis by (simp add: wrapNode_def planQueries_def)
qed

lemma synthesis_node_fails:
  assumes "isl (llm_invoke env Synthesis_call st)" "\<forall>prompt. isl (gemini_generateContent env prompt)"
  shows "\<exists>es. wrapNode name (geminiSynthesis env) (\<lambda>st. Set_verdict (fallbackVerdict st)) c st
     = (c, es, Inr (Set_verdict (fallbackVerdict st)))"
proof -
  from assms(1) obtain e where llm: "llm_invoke env Synthesis_call st = Inl e"
    by (auto dest: isl_Inl)
  have announced: "\<exists>es. (case announce_verdict (fallbackVerdict st) of
        Inr p \<Rightarrow> (c, [], Inr p)
      | Inl err \<Rightarrow> (case warn_description err of
                       Inl e \<Rightarrow> (c, [], Inl (Thrown e))
                     | Inr descr \<Rightarrow> (c, [warn_event name descr],
                         Inr (Set_verdict (fallbackVerdict st)))))
      = (c, es, Inr (Set_verdict (fallbackVerdict st)))"
  proof (cases "announce_verdict (fallbackVerdict st)")
    case (Inl t)
    then obtain e where "t = Thrown e" using announce_verdict_Inl by blast
    with Inl show ?thesis by simp
  next
    case (Inr p)
    then have "p = Set_verdict (fallbackVerdict st)" using announce_verdict_Inr by blast
    with Inr show ?thesis by simp
  qed
  show ?thesis
  proof (cases "synthesis_prompt env st")
    case (Inl err)
    then show ?thesis by (simp add: wrapNode_def geminiSynthesis_def)
  next
    case (Inr bigPrompt)
    obtain g where g: "gemini_generateContent env bigPrompt = Inl g"
      using assms(2) by (auto dest: isl_Inl)
    show ?thesis
    proof (cases "gemini_warning_throws g")
      case True
      with Inr g show ?thesis by (simp add: wrapNode_def geminiSynthesis_def)
    next
      case False
      with Inr g llm announced show ?thesis
        by (simp add: wrapNode_def geminiSynthesis_def)
    qed
  qed
qed

lemma fallback_score_degraded:
  "demandData st = demand_fallback \<Longrightarrow> fallback_score st = JNum 50"
  by (simp add: fallback_score_def demand_fallback_def)

lemma demand_fallback_score: "js_prop demand_fallback ''demandScore'' = Some (JNum 0)"
  by (simp add: demand_fallback_def)

text \<open>
  C4. When every call to the chat model raises (with a value that the wrapper can
  report) and every call to the synthesis model raises, the run ends with the fallback
  verdict and recommendation \<^verbatim>\<open>explore\<close>; the demand data is the demand stage's fallback,
  whose \<^verbatim>\<open>demandScore\<close> is 0, and the verdict's score is 50, since \<^verbatim>\<open>0 || 50\<close> is 50.
\<close>

theorem all_calls_fail_score_is_50:
  assumes llm: "\<forall>site st. \<exists>t. llm_invoke env site st = Inl t \<and> reportable t"
    and gem: "\<forall>prompt. isl (gemini_generateContent env prompt)"
  shows "\<exists>c evs st. graph_invoke env inp = (c, evs, Inr st)
     \<and> verdict st = fallbackVerdict st
     \<and> demandData st = demand_fallback
     \<and> js_prop (demandData st) ''demandScore'' = Some (JNum 0)
     \<and> js_prop (verdict st) ''score'' = Some (JNum 50)
     \<and> js_prop (verdict st) ''recommendation'' = Some (JStr ''explore'')"
proof -
  let ?s0 = "initial_state inp"
  let ?c0 = "fresh_closure"
  have fails: "\<exists>t. llm_invoke env site st = Inl t \<and> reportable t" for site st
    using llm by blast
  obtain e1 where n1: "wrapNode ''Plan queries'' (planQueries env) (\<lambda>st. Set_queries (fallbackQueries (idea st))) ?c0 ?s0
      = (?c0, e1, Inr (Set_queries (fallbackQueries (idea ?s0))))"
    using plan_node_fails fails [of Plan_call ?s0] by blast
  let ?s1 = "apply_patch ?s0 (Set_queries (fallbackQueries (idea ?s0)))"
  obtain e2 where n2: "wrapNode ''Trends'' (fetchTrends env) (\<lambda>st. Set_trendsData trends_fallback) ?c0 ?s1
      = (?c0, e2, Inr (Set_trendsData trends_fallback))"
    unfolding fetchTrends_def using llm_node_fails fails [of Trends_call ?s1] by blast
  let ?s2 = "apply_patch ?s1 (Set_trendsData trends_fallback)"
  obtain e3 where n3: "wrapNode ''Demand'' (demandCheck env) (\<lambda>st. Set_demandData demand_fallback) ?c0 ?s2
      = (?c0, e3, Inr (Set_demandData demand_fallback))"
    unfolding demandCheck_def using llm_node_fails fails [of Demand_call ?s2] by blast
  let ?s3 = "apply_patch ?s2 (Set_demandData demand_fallback)"
  obtain e4 where n4: "wrapNode ''Adopters'' (adopterSearch env) (\<lambda>st. Set_adopterData adopter_fallback) ?c0 ?s3
      = (?c0, e4, Inr (Set_adopterData adopter_fallback))"
    unfolding adopterSearch_def using llm_node_fails fails [of Adopters_call ?s3] by blast
  let ?s4 = "apply_patch ?s3 (Set_adopterData adopter_fallback)"
  obtain e5 where n5: "wrapNode ''Funders'' (funderSearch env) (\<lambda>st. Set_funderData funder_fallback) ?c0 ?s4
      = (?c0, e5, Inr (Set_funderData funder_fallback))"
    unfolding funderSearch_def using llm_node_fails fails [of Funders_call ?s4] by blast
  let ?s5 = "apply_patch ?s4 (Set_funderData funder_fallback)"
  obtain e6 d6 where n6: "wrapNode ''Community'' (communityResearch env) (\<lambda>st. Set_communityData community_fallback) ?c0 ?s5
      = (?c0, e6, Inr (Set_communityData d6))"
    using community_node by blast
  let ?s6 = "apply_patch ?s5 (Set_communityData d6)"
  let ?c7 = "fst (tavilyResearch env ?c0 ?s6)"
  obtain e7 d7 where n7: "wrapNode ''Web intel'' (tavilyResearch env) (\<lambda>st. Set_tavilyData tavily_fallback) ?c0 ?s6
      = (?c7, e7, Inr (Set_tavilyData d7))"
    using tavily_node_total [OF fresh_closure_fulfilled] by blast
  let ?s7 = "apply_patch ?s6 (Set_tavilyData d7)"
  have "isl (llm_invoke env Synthesis_call ?s7)"
    using fails [of Synthesis_call ?s7] by auto
  then obtain e8 where n8: "wrapNode ''Synthesis'' (geminiSynthesis env) (\<lambda>st. Set_verdict (fallbackVerdict st)) ?c7 ?s7
      = (?c7, e8, Inr (Set_verdict (fallbackVerdict ?s7)))"
    using synthesis_node_fails [of env ?s7] gem by blast
  let ?s8 = "apply_patch ?s7 (Set_verdict (fallbackVerdict ?s7))"
  have run: "graph_invoke env inp = (?c7, e1 @ e2 @ e3 @ e4 @ e5 @ e6 @ e7 @ e8, Inr ?s8)"
    by (simp add: graph_invoke_def createResearchGraph_def graph_nodes_def n1 n2 n3 n4 n5 n6 n7 n8
        del: apply_patch.simps)
  have dd: "demandData ?s8 = demand_fallback" by simp
  have v: "verdict ?s8 = fallbackVerdict ?s8" by simp
  have sc: "fallback_score ?s8 = JNum 50"
    using dd by (rule fallback_score_degraded)
  have "js_prop (verdict ?s8) ''score'' = Some (JNum 50)"
    by (simp only: v js_prop_fallback_score sc)
  moreover have "js_prop (verdict ?s8) ''recommendation'' = Some (JStr ''explore'')"
    by (simp only: v js_prop_fallback_recommendation)
  moreover have "js_prop (demandData ?s8) ''demandScore'' = Some (JNum 0)"
    by (simp only: dd demand_fallback_score)
  ultimately show ?thesis
    using run dd v by blast
qed

section \<open>Properties of the research endpoint\<close>

text \<open>
  C5. The endpoint answers an invalid idea with the error of the check, before the
  graph is built. For a valid idea the stream ends with the complete result, whose
  verdict is not \<^verbatim>\<open>null\<close>, whenever the chat model's rejections are reportable; in
  general it ends so or with the agent error carrying a \<^verbatim>\<open>TypeError\<close> that a wrapper
  raised; and it does end with that agent error, for a valid idea, when the chat model
  rejects the planning request with \<^verbatim>\<open>null\<close>.
\<close>

theorem api_research_outcomes:
  "(idea_rejected req \<longrightarrow> api_research env req = Http_400 ''Provide a startup idea (min 3 chars).'')
   \<and> (\<not> idea_rejected req \<and> llm_reportable env \<longrightarrow>
        (\<exists>evs st. api_research env req = Sse evs (Complete st) \<and> verdict st \<noteq> JNull))
   \<and> (\<not> idea_rejected req \<longrightarrow>
        (\<exists>evs st. api_research env req = Sse evs (Complete st) \<and> verdict st \<noteq> JNull)
        \<or> (\<exists>evs e. api_research env req = Sse evs (Agent_error (Thrown e))))
   \<and> (\<not> idea_rejected req \<and> llm_invoke env Plan_call (initial_state (request_input req)) = Inl Nullish
        \<longrightarrow> api_research env req
          = Sse [] (Agent_error (Thrown (TypeError ''Cannot read properties of null or undefined''))))"
proof -
  have polite: "\<exists>evs st. api_research env req = Sse evs (Complete st) \<and> verdict st \<noteq> JNull"
    if ok: "\<not> idea_rejected req" and pol: "llm_reportable env"
  proof -
    obtain c evs st where "graph_invoke env (request_input req) = (c, evs, Inr st)" "verdict st \<noteq> JNull"
      using graph_invoke_verdict [OF pol, of "request_input req"] by blast
    with ok show ?thesis by (simp add: api_research_def)
  qed
  have either: "(\<exists>evs st. api_research env req = Sse evs (Complete st) \<and> verdict st \<noteq> JNull)
        \<or> (\<exists>evs e. api_research env req = Sse evs (Agent_error (Thrown e)))"
    if ok: "\<not> idea_rejected req"
  proof -
    obtain c evs r where run: "graph_invoke env (request_input req) = (c, evs, r)"
      by (cases "graph_invoke env (request_input req)") auto
    from graph_invoke_outcome [OF run] show ?thesis
    proof
      assume "\<exists>st. r = Inr st \<and> verdict st \<noteq> JNull \<and> verdict_origin env st (verdict st)"
      with run ok show ?thesis by (auto simp: api_research_def)
    next
      assume "\<exists>e. r = Inl (Thrown e)"
      with run ok show ?thesis by (auto simp: api_research_def)
    qed
  qed
  have null: "api_research env req
      = Sse [] (Agent_error (Thrown (TypeError ''Cannot read properties of null or undefined'')))"
    if "\<not> idea_rejected req"
      and "llm_invoke env Plan_call (initial_state (request_input req)) = Inl Nullish"
    using that graph_invoke_null_rejection [of env "request_input req"]
    by (simp add: api_research_def)
  show ?thesis
    using polite either null by (simp add: api_research_def)
qed

section \<open>Properties of the prefetch\<close>

lemma wrapNode_closure: "fst (wrapNode name fn fb c st) = fst (fn c st)"
  by (auto simp: wrapNode_def split: prod.splits sum.splits)

lemma planQueries_consistent:
  "prefetch_consistent c \<Longrightarrow> prefetch_consistent (fst (planQueries env c st))"
  using planQueries_closure [of env c st]
  by (auto simp: prefetch_consistent_def start_prefetch_def split: option.splits)

lemma run_nodes_preserves:
  assumes "\<forall>n\<in>set ns. \<forall>c st. P c \<longrightarrow> P (fst (n c st))" "P c"
  shows "P (fst (run_nodes ns c evs st))"
  using assms
proof (induction ns arbitrary: c evs st)
  case Nil
  then show ?case by simp
next
  case (Cons n ns)
  obtain c1 es r where n: "n c st = (c1, es, r)" by (cases "n c st") auto
  from Cons.prems have c1: "P c1" using n by (metis fst_conv list.set_intros(1))
  show ?case
  proof (cases r)
    case (Inl t)
    with n c1 show ?thesis by simp
  next
    case (Inr p)
    from Cons.prems(1) have "\<forall>n\<in>set ns. \<forall>c st. P c \<longrightarrow> P (fst (n c st))" by simp
    from Cons.IH [OF this c1] n Inr show ?thesis by simp
  qed
qed

lemma graph_invoke_runs:
  "\<exists>c evs r. graph_invoke env inp = (c, evs, r) \<and> tavily_runs c \<le> 1
     \<and> (isl r \<or> tavily_runs c = 1)"
proof -
  let ?s0 = "initial_state inp"
  let ?first = "[wrapNode ''Plan queries'' (planQueries env) (\<lambda>st. Set_queries (fallbackQueries (idea st))),
      wrapNode ''Trends'' (fetchTrends env) (\<lambda>st. Set_trendsData trends_fallback),
      wrapNode ''Demand'' (demandCheck env) (\<lambda>st. Set_demandData demand_fallback),
      wrapNode ''Adopters'' (adopterSearch env) (\<lambda>st. Set_adopterData adopter_fallback),
      wrapNode ''Funders'' (funderSearch env) (\<lambda>st. Set_funderData funder_fallback),
      wrapNode ''Community'' (communityResearch env) (\<lambda>st. Set_communityData community_fallback)]"
  let ?n7 = "wrapNode ''Web intel'' (tavilyResearch env) (\<lambda>st. Set_tavilyData tavily_fallback)"
  let ?n8 = "wrapNode ''Synthesis'' (geminiSynthesis env) (\<lambda>st. Set_verdict (fallbackVerdict st))"
  have split: "createResearchGraph env = ?first @ [?n7, ?n8]"
    by (simp add: createResearchGraph_def graph_nodes_def)
  have keep: "\<forall>n\<in>set ?first. \<forall>c st. prefetch_consistent c \<longrightarrow> prefetch_consistent (fst (n c st))"
    by (simp add: wrapNode_closure planQueries_consistent fetchTrends_def demandCheck_def
        adopterSearch_def funderSearch_def llm_stage_closure communityResearch_def Let_def)
  have start: "prefetch_consistent fresh_closure"
    by (simp add: prefetch_consistent_def fresh_closure_def)
  obtain c6 e6 r6 where six: "run_nodes ?first fresh_closure [] ?s0 = (c6, e6, r6)"
    by (cases "run_nodes ?first fresh_closure [] ?s0") auto
  have c6: "prefetch_consistent c6"
    using run_nodes_preserves [OF keep start, of "[]" ?s0] six by simp
  then have c6_runs: "tavily_runs c6 \<le> 1"
    by (auto simp: prefetch_consistent_def split: option.splits)
  have whole: "graph_invoke env inp =
      (case r6 of Inl err \<Rightarrow> (c6, e6, Inl err) | Inr st6 \<Rightarrow> run_nodes [?n7, ?n8] c6 e6 st6)"
    by (simp only: graph_invoke_def split run_nodes_append six prod.case)
  show ?thesis
  proof (cases r6)
    case (Inl t)
    with whole c6_runs show ?thesis by simp
  next
    case (Inr st6)
    obtain c7 e7 r7 where seven: "?n7 c6 st6 = (c7, e7, r7)" by (cases "?n7 c6 st6") auto
    then have "c7 = fst (tavilyResearch env c6 st6)"
      using wrapNode_closure [of "''Web intel''" "tavilyResearch env" _ c6 st6] by (metis fst_conv)
    with c6 have c7: "tavily_runs c7 = 1"
      by (auto simp: tavilyResearch_runs prefetch_consistent_def split: option.splits)
    show ?thesis
    proof (cases r7)
      case (Inl t)
      with whole Inr seven c7 show ?thesis by simp
    next
      case (Inr p7)
      obtain c8 e8 r8 where eight: "?n8 c7 (apply_patch st6 p7) = (c8, e8, r8)"
        by (cases "?n8 c7 (apply_patch st6 p7)") auto
      then have "c8 = c7"
        using wrapNode_closure [of "''Synthesis''" "geminiSynthesis env" _ c7 "apply_patch st6 p7"]
        by (metis fst_conv geminiSynthesis_closure)
      with whole \<open>r6 = Inr st6\<close> seven Inr eight c7 show ?thesis
        by (cases r8) simp_all
    qed
  qed
qed

text \<open>
  C9. While a promise is held, the planning stage does not start the web research again
  and the joining stage returns the promise's outcome and leaves the shared variable
  and the execution count as they are, so that joining again gives the same result. The
  planning stage starts the task at most once; in a run of the graph the task is
  executed at most once, and exactly once when the run completes.
\<close>

theorem prefetch_once_join_idempotent:
  "(tavilyPrefetchPromise c = Some p \<longrightarrow>
       fst (planQueries env c st) = c
     \<and> tavilyResearch env c st = (c, case p of Inl err \<Rightarrow> Inl err | Inr d \<Rightarrow> Inr (Set_tavilyData d))
     \<and> tavilyResearch env (fst (tavilyResearch env c st)) st' = tavilyResearch env c st)
   \<and> tavily_runs (fst (planQueries env c st)) \<le> Suc (tavily_runs c)
   \<and> (\<exists>c' evs r. graph_invoke env inp = (c', evs, r) \<and> tavily_runs c' \<le> 1
        \<and> (isl r \<or> tavily_runs c' = 1))"
proof -
  have guard: "tavilyPrefetchPromise c = Some p \<Longrightarrow> fst (planQueries env c st) = c"
    using planQueries_closure [of env c st] by (auto simp: start_prefetch_def)
  have join: "tavilyPrefetchPromise c = Some p \<Longrightarrow>
      tavilyResearch env c st' = (c, case p of Inl err \<Rightarrow> Inl err | Inr d \<Rightarrow> Inr (Set_tavilyData d))" for st'
    by (simp add: tavilyResearch_def)
  have runs: "tavily_runs (fst (planQueries env c st)) \<le> Suc (tavily_runs c)"
    using planQueries_closure [of env c st] by (auto simp: start_prefetch_def split: option.splits)
  show ?thesis
    using guard join runs graph_invoke_runs [of env inp] by simp
qed

section \<open>Properties of the planning stage\<close>









text \<open>
  A plan with a value that cannot be converted to a string is replaced by the fallback
  plan as well, with a warning of the wrapper, and the web research is not started.
\<close>

lemma plan_node_unconvertible_value:
  "plan_node odd_env fresh_closure meal_planner
     = (fresh_closure, [warn_event ''Plan queries'' ''Cannot convert object to primitive value''],
        Inr (Set_queries (fallbackQueries ''AI meal planner'')))"
  by (simp add: odd_env_def working_env_def odd_reply_def odd_plan_def dquote_def
      match_braces_def plan_node_def wrapNode_def planQueries_def parse_reply_def
      meal_planner_def State_default_def Let_def TypeError_def error_description_def)

section \<open>The theorems at concrete inputs\<close>

text \<open>The definitions that a run of the graph on concrete collaborators unfolds.\<close>

lemmas graph_eval = graph_invoke_def createResearchGraph_def graph_nodes_def wrapNode_def
  planQueries_def fetchTrends_def demandCheck_def adopterSearch_def funderSearch_def llm_stage_def
  communityResearch_def tavilyResearch_def geminiSynthesis_def parse_reply_def announce_verdict_def
  start_prefetch_def fresh_closure_def initial_state_def State_default_def meal_input_def
  tiny_parse_def match_braces_def Let_def TypeError_def error_description_def

lemma working_run_evaluated:
  "\<exists>c evs. graph_invoke working_env meal_input =
       (c, evs, Inr \<lparr> idea = ''AI meal planner'', description = [], queries = JObj [],
          trendsData = JObj [(''insights'', JStr ''Here you are: {}'')],
          demandData = JObj [(''insights'', JStr ''Here you are: {}'')],
          adopterData = JObj [(''insights'', JStr ''Here you are: {}'')],
          funderData = JObj [(''insights'', JStr ''Here you are: {}'')],
          communityData = JObj [(''tweets'', JArr []), (''count'', JNum 0)],
          tavilyData = Some (projr (runSingleTavilyResearch page_search ''AI meal planner'')),
          verdict = JObj [] \<rparr>)"
  by (simp add: graph_eval working_env_def runSingleTavilyResearch_eq)

lemma failing_run_evaluated:
  "(case graph_invoke failing_env meal_input of (c, evs, r) \<Rightarrow>
     (c, map etype evs,
      map_sum id (\<lambda>st. (demandData st = demand_fallback, tavilyData st,
                         js_prop (verdict st) ''recommendation'', js_prop (verdict st) ''score'')) r))
   = (\<lparr> tavilyPrefetchPromise = None, tavily_runs = 1 \<rparr>,
      [''warn'', ''warn'', ''warn'', ''warn'', ''warn''],
      Inr (True, Some tavily_fallback, Some (JStr ''explore''), Some (JNum 50)))"
  by (simp add: graph_eval failing_env_def runSingleTavilyResearch_eq network_error_def
      successful_results_def searchQueries_def uniqueSources_def tavily_fallback_def
      gatherAll_def allSettled_def js_prop_fallback_score fallback_score_def demand_fallback_def
      warn_event_def fallbackVerdict_non_null js_prop_fallback_recommendation)

lemma working_env_reportable: "llm_reportable working_env"
  by (simp add: llm_reportable_def working_env_def)

theorem pipeline_verdict_unless_wrapper_raises_witness:
  "llm_invoke null_env Plan_call (initial_state meal_input) = Inl Nullish
   \<and> graph_invoke null_env meal_input
       = (fresh_closure, [], Inl (Thrown (TypeError ''Cannot read properties of null or undefined'')))
   \<and> llm_reportable working_env
   \<and> (\<exists>c evs st. graph_invoke working_env meal_input = (c, evs, Inr st) \<and> verdict st = JObj [])"
proof -
  have a: "llm_invoke null_env Plan_call (initial_state meal_input) = Inl Nullish"
    by (simp add: null_env_def)
  from pipeline_verdict_unless_wrapper_raises [of "planQueries null_env" "fetchTrends null_env"
      "demandCheck null_env" "adopterSearch null_env" "funderSearch null_env"
      "communityResearch null_env" "tavilyResearch null_env" null_env fresh_closure "[]"
      "initial_state meal_input" meal_input] a
  have b: "graph_invoke null_env meal_input
       = (fresh_closure, [], Inl (Thrown (TypeError ''Cannot read properties of null or undefined'')))"
    by blast
  from working_run_evaluated a b working_env_reportable show ?thesis by auto
qed

theorem uniqueSources_first_occurrences_witness:
  "uniqueSources [page ''a'' ''first'', page ''b'' ''x'', page ''a'' ''second'',
                  \<lparr> url = None, title = Some ''t'', content = None \<rparr>, page [] ''empty'', page ''b'' ''y'']
     = [page ''a'' ''first'', page ''b'' ''x'']
   \<and> length (uniqueSources (concat [[page ''a'' ''1'', page ''b'' ''2'', page ''c'' ''3''],
                                     [page ''c'' ''4'', page ''d'' ''5'']])) = 4"
  using uniqueSources_first_occurrences [of "[page ''a'' ''first'', page ''b'' ''x'', page ''a'' ''second'',
                  \<lparr> url = None, title = Some ''t'', content = None \<rparr>, page [] ''empty'', page ''b'' ''y'']"
      "[[page ''a'' ''1'', page ''b'' ''2'', page ''c'' ''3''], [page ''c'' ''4'', page ''d'' ''5'']]"]
  by (simp add: uniqueSources_def page_def)

theorem all_calls_fail_score_is_50_witness:
  "(\<forall>site st. \<exists>t. llm_invoke failing_env site st = Inl t \<and> reportable t)
   \<and> (\<forall>prompt. isl (gemini_generateContent failing_env prompt))
   \<and> (\<exists>c evs st. graph_invoke failing_env meal_input = (c, evs, Inr st)
        \<and> js_prop (demandData st) ''demandScore'' = Some (JNum 0)
        \<and> js_prop (verdict st) ''score'' = Some (JNum 50))
   \<and> (case graph_invoke failing_env meal_input of (c, evs, r) \<Rightarrow>
        (c, map etype evs,
         map_sum id (\<lambda>st. (demandData st = demand_fallback, tavilyData st,
                            js_prop (verdict st) ''recommendation'', js_prop (verdict st) ''score'')) r))
      = (\<lparr> tavilyPrefetchPromise = None, tavily_runs = 1 \<rparr>,
         [''warn'', ''warn'', ''warn'', ''warn'', ''warn''],
         Inr (True, Some tavily_fallback, Some (JStr ''explore''), Some (JNum 50)))"
proof -
  have a: "\<forall>site st. \<exists>t. llm_invoke failing_env site st = Inl t \<and> reportable t"
    by (simp add: failing_env_def)
  have b: "\<forall>prompt. isl (gemini_generateContent failing_env prompt)"
    by (simp add: failing_env_def)
  from all_calls_fail_score_is_50 [OF a b, of meal_input] a b failing_run_evaluated
  show ?thesis by blast
qed

theorem api_research_outcomes_witness:
  "idea_rejected short_request
   \<and> api_research working_env short_request = Http_400 ''Provide a startup idea (min 3 chars).''
   \<and> \<not> idea_rejected meal_request
   \<and> llm_reportable working_env
   \<and> (\<exists>evs st. api_research working_env meal_request = Sse evs (Complete st) \<and> verdict st \<noteq> JNull)
   \<and> llm_invoke null_env Plan_call (initial_state (request_input meal_request)) = Inl Nullish
   \<and> api_research null_env meal_request
       = Sse [] (Agent_error (Thrown (TypeError ''Cannot read properties of null or undefined'')))"
proof -
  have a: "idea_rejected short_request"
    by (simp add: idea_rejected_def short_request_def js_trim_def js_space_def)
  have b: "\<not> idea_rejected meal_request"
    by (simp add: idea_rejected_def meal_request_def js_trim_def js_space_def)
  have c: "llm_invoke null_env Plan_call (initial_state (request_input meal_request)) = Inl Nullish"
    by (simp add: null_env_def)
  from api_research_outcomes [of short_request working_env]
    api_research_outcomes [of meal_request working_env]
    api_research_outcomes [of meal_request null_env] a b c working_env_reportable
  show ?thesis by blast
qed

theorem prefetch_once_join_idempotent_witness:
  "tavilyPrefetchPromise held_closure = Some (Inr tavily_fallback)
   \<and> fst (planQueries working_env held_closure meal_planner) = held_closure
   \<and> tavilyResearch working_env held_closure meal_planner = (held_closure, Inr (Set_tavilyData tavily_fallback))
   \<and> tavilyResearch working_env (fst (tavilyResearch working_env held_closure meal_planner)) meal_planner
       = (held_closure, Inr (Set_tavilyData tavily_fallback))"
proof -
  have a: "tavilyPrefetchPromise held_closure = Some (Inr tavily_fallback)"
    by (simp add: held_closure_def)
  from prefetch_once_join_idempotent [of held_closure "Inr tavily_fallback" working_env meal_planner meal_planner meal_input] a
  show ?thesis by simp
qed

end
